theory Spec2Isabelle
  imports Complex_Main
begin

section \<open>Shell environment shared by the two container scripts\<close>

text \<open>
  A process environment maps variable names to values; an unset variable is \<open>None\<close>.
\<close>

type_synonym environment = "string \<rightharpoonup> string"

section \<open>Database initialisation script (first script of \<open>src/unnamed/part_000\<close>)\<close>

text \<open>
  The script runs under \<open>set -euo pipefail\<close> and feeds one statement to \<open>psql\<close>:
  \<^verbatim>\<open>
  psql -v ON_ERROR_STOP=1 --username "$POSTGRES_USER" --dbname "$POSTGRES_DB" \
       --set=owner="$POSTGRES_USER" <<'EOSQL'
  SELECT format('CREATE DATABASE %I OWNER %I', 'antigravity', :'owner')
  WHERE NOT EXISTS (SELECT FROM pg_database WHERE datname = 'antigravity')\gexec
  EOSQL
  \<close>
  The catalog \<open>pg_database\<close> is a list of rows (name and owner).  The role
  \<open>POSTGRES_USER\<close> is the superuser the image creates, so the model lets it log in and
  create databases; what the model keeps of the failures are the ones visible in the script:
  an unset variable under \<open>set -u\<close>, a session that cannot be opened because the database
  \<open>POSTGRES_DB\<close> does not exist, and a \<open>CREATE DATABASE\<close> of a name that is taken
  (with \<open>ON_ERROR_STOP\<close> and \<open>set -e\<close> each of them ends the script).
\<close>

record pg_database_row =
  datname :: string
  datdba :: string

type_synonym pg_database = "pg_database_row list"

datatype sql_statement = CreateDatabase string string

datatype init_error =
    UnboundVariable string
  | ConnectionFailed string
  | DuplicateDatabase string

definition database_exists :: "pg_database \<Rightarrow> string \<Rightarrow> bool" where
  "database_exists cat name = (name \<in> set (map datname cat))"

text \<open>
  The \<open>SELECT\<close>: one result row, the text of a \<open>CREATE DATABASE\<close>, when no row of
  \<open>pg_database\<close> is named \<open>antigravity\<close>; no row otherwise.
\<close>

definition select_create :: "pg_database \<Rightarrow> string \<Rightarrow> sql_statement list" where
  "select_create cat owner =
     (if \<not> database_exists cat ''antigravity''
      then [CreateDatabase ''antigravity'' owner] else [])"

fun execute :: "sql_statement \<Rightarrow> pg_database \<Rightarrow> init_error + pg_database" where
  "execute (CreateDatabase name owner) cat =
     (if database_exists cat name then Inl (DuplicateDatabase name)
      else Inr (cat @ [\<lparr>datname = name, datdba = owner\<rparr>]))"

text \<open>\<open>\gexec\<close> sends every cell of the result to the server as a statement, in order.\<close>

fun gexec :: "sql_statement list \<Rightarrow> pg_database \<Rightarrow> init_error + pg_database" where
  "gexec [] cat = Inr cat"
| "gexec (s # ss) cat =
     (case execute s cat of Inl e \<Rightarrow> Inl e | Inr cat' \<Rightarrow> gexec ss cat')"

definition init_antigravity_db :: "environment \<Rightarrow> pg_database \<Rightarrow> init_error + pg_database" where
  "init_antigravity_db env cat =
     (case env ''POSTGRES_USER'' of
        None \<Rightarrow> Inl (UnboundVariable ''POSTGRES_USER'')
      | Some user \<Rightarrow>
          (case env ''POSTGRES_DB'' of
             None \<Rightarrow> Inl (UnboundVariable ''POSTGRES_DB'')
           | Some db \<Rightarrow>
               if \<not> database_exists cat db then Inl (ConnectionFailed db)
               else gexec (select_create cat user) cat))"

text \<open>Running the script \<open>n\<close> times in a row; a failing run ends the sequence.\<close>

fun init_runs :: "nat \<Rightarrow> environment \<Rightarrow> pg_database \<Rightarrow> init_error + pg_database" where
  "init_runs 0 env cat = Inr cat"
| "init_runs (Suc n) env cat =
     (case init_antigravity_db env cat of Inl e \<Rightarrow> Inl e | Inr cat' \<Rightarrow> init_runs n env cat')"

definition count_named :: "pg_database \<Rightarrow> string \<Rightarrow> nat" where
  "count_named cat name = length (filter (\<lambda>r. datname r = name) cat)"

section \<open>Plugin entry point (second script of \<open>src/unnamed/part_000\<close>)\<close>

text \<open>
  The file system is a map from paths to nodes.  The script touches one path,
  \<open>/app/config.json\<close>; the directory \<open>/app\<close> is the image's working directory and is
  taken to exist and be writable.  Standard output is a byte string; the messages of the
  script are Chinese text, written here as their UTF-8 bytes.
\<close>

datatype fs_node = RegularFile string | Directory

type_synonym filesystem = "string \<rightharpoonup> fs_node"

record container =
  fs :: filesystem
  stdout :: string
  exec_argv :: "string list option"

definition CONFIG_FILE :: string where
  "CONFIG_FILE = ''/app/config.json''"

text \<open>\<open>${VAR:-default}\<close>: the default stands in when the variable is unset or empty.\<close>

definition param_default :: "environment \<Rightarrow> string \<Rightarrow> string \<Rightarrow> string" where
  "param_default env var dflt =
     (case env var of None \<Rightarrow> dflt | Some v \<Rightarrow> if v = [] then dflt else v)"

definition heredoc :: "string list \<Rightarrow> string" where
  "heredoc ls = concat (map (\<lambda>l. l @ [CHR 0x0A]) ls)"

definition config_json :: "environment \<Rightarrow> string" where
  "config_json env = heredoc
    [''{'',
     ''  \"server\": {'',
     ''    \"port\": \"'' @ param_default env ''PORT'' ''8045'' @ ''\",'',
     ''    \"host\": \"0.0.0.0\"'',
     ''  },'',
     ''  \"database\": {'',
     ''    \"host\": \"'' @ param_default env ''DB_HOST'' ''localhost'' @ ''\",'',
     ''    \"port\": '' @ param_default env ''DB_PORT'' ''5432'' @ '','',
     ''    \"database\": \"'' @ param_default env ''DB_NAME'' ''antigv'' @ ''\",'',
     ''    \"user\": \"'' @ param_default env ''DB_USER'' ''postgres'' @ ''\",'',
     ''    \"password\": \"'' @ param_default env ''DB_PASSWORD'' ''postgres'' @ ''\",'',
     ''    \"max\": 20,'',
     ''    \"idleTimeoutMillis\": 30000,'',
     ''    \"connectionTimeoutMillis\": 2000'',
     ''  },'',
     ''  \"redis\": {'',
     ''    \"host\": \"'' @ param_default env ''REDIS_HOST'' ''localhost'' @ ''\",'',
     ''    \"port\": '' @ param_default env ''REDIS_PORT'' ''6379'' @ '','',
     ''    \"password\": \"'' @ param_default env ''REDIS_PASSWORD'' '''' @ ''\",'',
     ''    \"db\": 0'',
     ''  },'',
     ''  \"oauth\": {'',
     ''    \"callbackUrl\": \"'' @ param_default env ''OAUTH_CALLBACK_URL''
          ''http://localhost:8045/api/oauth/callback'' @ ''\"'',
     ''  },'',
     ''  \"security\": {'',
     ''    \"maxRequestSize\": \"50mb\",'',
     ''    \"adminApiKey\": \"'' @ param_default env ''ADMIN_API_KEY'' ''sk-admin-default-key'' @ ''\"'',
     ''  },'',
     ''  \"systemInstruction\": \"\"'',
     ''}'']"

text \<open>The variables the template reads, each with the default of its \<open>:-\<close> expansion.\<close>

definition config_defaults :: "(string \<times> string) list" where
  "config_defaults =
    [(''PORT'', ''8045''), (''DB_HOST'', ''localhost''), (''DB_PORT'', ''5432''),
     (''DB_NAME'', ''antigv''), (''DB_USER'', ''postgres''), (''DB_PASSWORD'', ''postgres''),
     (''REDIS_HOST'', ''localhost''), (''REDIS_PORT'', ''6379''), (''REDIS_PASSWORD'', ''''),
     (''OAUTH_CALLBACK_URL'', ''http://localhost:8045/api/oauth/callback''),
     (''ADMIN_API_KEY'', ''sk-admin-default-key'')]"

definition msg_using_existing :: string where
  "msg_using_existing =
     [CHR 0xE4, CHR 0xBD, CHR 0xBF, CHR 0xE7, CHR 0x94, CHR 0xA8, CHR 0xE5, CHR 0xB7, CHR 0xB2,
      CHR 0xE5, CHR 0xAD, CHR 0x98, CHR 0xE5, CHR 0x9C, CHR 0xA8, CHR 0xE7, CHR 0x9A, CHR 0x84,
      CHR 0xE9, CHR 0x85, CHR 0x8D, CHR 0xE7, CHR 0xBD, CHR 0xAE, CHR 0xE6, CHR 0x96, CHR 0x87,
      CHR 0xE4, CHR 0xBB, CHR 0xB6, CHR 0x3A, CHR 0x20]"

definition msg_generating :: string where
  "msg_generating =
     [CHR 0xE4, CHR 0xBB, CHR 0x8E, CHR 0xE7, CHR 0x8E, CHR 0xAF, CHR 0xE5, CHR 0xA2, CHR 0x83,
      CHR 0xE5, CHR 0x8F, CHR 0x98, CHR 0xE9, CHR 0x87, CHR 0x8F, CHR 0xE7, CHR 0x94, CHR 0x9F,
      CHR 0xE6, CHR 0x88, CHR 0x90, CHR 0xE9, CHR 0x85, CHR 0x8D, CHR 0xE7, CHR 0xBD, CHR 0xAE,
      CHR 0xE6, CHR 0x96, CHR 0x87, CHR 0xE4, CHR 0xBB, CHR 0xB6, CHR 0x2E, CHR 0x2E, CHR 0x2E]"

definition msg_generated :: string where
  "msg_generated =
     [CHR 0xE9, CHR 0x85, CHR 0x8D, CHR 0xE7, CHR 0xBD, CHR 0xAE, CHR 0xE6, CHR 0x96, CHR 0x87,
      CHR 0xE4, CHR 0xBB, CHR 0xB6, CHR 0xE5, CHR 0xB7, CHR 0xB2, CHR 0xE7, CHR 0x94, CHR 0x9F,
      CHR 0xE6, CHR 0x88, CHR 0x90, CHR 0x3A, CHR 0x20]"

definition msg_starting :: string where
  "msg_starting =
     [CHR 0xE5, CHR 0x90, CHR 0xAF, CHR 0xE5, CHR 0x8A, CHR 0xA8, CHR 0x20, CHR 0x41, CHR 0x6E,
      CHR 0x74, CHR 0x69, CHR 0x48, CHR 0x75, CHR 0x62, CHR 0x20, CHR 0x41, CHR 0x50, CHR 0x49,
      CHR 0x20, CHR 0xE6, CHR 0x9C, CHR 0x8D, CHR 0xE5, CHR 0x8A, CHR 0xA1, CHR 0x2E, CHR 0x2E,
      CHR 0x2E]"

definition echo :: "string \<Rightarrow> container \<Rightarrow> container" where
  "echo s c = c\<lparr>stdout := stdout c @ s @ [CHR 0x0A]\<rparr>"

text \<open>\<open>[ -f path ]\<close>: the path exists and is a regular file.\<close>

definition test_f :: "filesystem \<Rightarrow> string \<Rightarrow> bool" where
  "test_f f path = (case f path of Some (RegularFile _) \<Rightarrow> True | _ \<Rightarrow> False)"

text \<open>
  \<open>cat > path << EOF\<close>: the shell opens the path for writing, creating or truncating it;
  on a directory the redirection fails, nothing is written and the script goes on (it does
  not run under \<open>set -e\<close>).
\<close>

definition write_file :: "string \<Rightarrow> string \<Rightarrow> container \<Rightarrow> container" where
  "write_file path text c =
     (case fs c path of
        Some Directory \<Rightarrow> c
      | _ \<Rightarrow> c\<lparr>fs := (fs c)(path \<mapsto> RegularFile text)\<rparr>)"

text \<open>\<open>cat path\<close>: the contents of a regular file go to standard output.\<close>

definition cat_file :: "string \<Rightarrow> container \<Rightarrow> container" where
  "cat_file path c =
     (case fs c path of
        Some (RegularFile text) \<Rightarrow> c\<lparr>stdout := stdout c @ text\<rparr>
      | _ \<Rightarrow> c)"

definition entrypoint :: "environment \<Rightarrow> container \<Rightarrow> container" where
  "entrypoint env c =
     (let c1 =
        (if test_f (fs c) CONFIG_FILE
         then echo (msg_using_existing @ CONFIG_FILE) c
         else cat_file CONFIG_FILE
                (echo (msg_generated @ CONFIG_FILE)
                  (write_file CONFIG_FILE (config_json env)
                    (echo msg_generating c))));
          c2 = echo ''================================'' (echo msg_starting (echo '''' c1))
      in c2\<lparr>exec_argv := Some [''node'', ''src/server/index.js'']\<rparr>)"

section \<open>JavaScript values used by the trend chart\<close>

subsection \<open>Numbers\<close>

text \<open>
  A JavaScript number is an IEEE-754 binary64 value.  A finite one is modelled by the
  rational it denotes (the two zeros are not told apart); \<open>round_double\<close> maps a rational
  to the nearest binary64 value, ties to even, with the subnormal range and the overflow to
  infinity.  Every arithmetic result is the exact result rounded.
\<close>

datatype number = NaN | Infinity | NegInfinity | Finite rat

text \<open>The number of binary digits of a positive integer.\<close>

function bit_length :: "int \<Rightarrow> int" where
  "bit_length n = (if n \<le> 0 then 0 else 1 + bit_length (n div 2))"
  by pat_completeness auto
termination
  by (relation "measure nat") auto

declare bit_length.simps [simp del]

definition pow2 :: "int \<Rightarrow> rat" where
  "pow2 e = (if 0 \<le> e then 2 ^ nat e else 1 / 2 ^ nat (- e))"

text \<open>For \<open>x > 0\<close>, the exponent \<open>e\<close> with \<open>2 ^ e \<le> x < 2 ^ (e + 1)\<close>.\<close>

definition floor_log2 :: "rat \<Rightarrow> int" where
  "floor_log2 x =
     (let (p, q) = quotient_of x;
          e0 = bit_length p - bit_length q
      in if pow2 e0 \<le> x then e0 else e0 - 1)"

definition round_half_even :: "rat \<Rightarrow> int" where
  "round_half_even x =
     (let f = \<lfloor>x\<rfloor>; d = x - of_int f
      in if d < 1 / 2 then f
         else if 1 / 2 < d then f + 1
         else if even f then f else f + 1)"

text \<open>
  Rounding to binary64.  \<open>e\<close> is the exponent of the binade of \<open>\<bar>x\<bar>\<close>, not below that of
  the subnormal range; the significand \<open>m\<close> is \<open>\<bar>x\<bar>\<close> in units of \<open>2 ^ (e - 52)\<close>,
  rounded to an integer, so \<open>m \<le> 2 ^ 53\<close>.  The result \<open>m * 2 ^ (e - 52)\<close> is beyond the
  largest finite number, and becomes an infinity, when it reaches \<open>2 ^ 1024\<close>: when
  \<open>e > 1023\<close>, or \<open>e = 1023\<close> and the significand was rounded up to \<open>2 ^ 53\<close>.
\<close>

definition round_double :: "rat \<Rightarrow> number" where
  "round_double x =
     (if x = 0 then Finite 0
      else
        let a = \<bar>x\<bar>;
            e = max (floor_log2 a) (- 1022);
            ulp = pow2 (e - 52);
            m = round_half_even (a / ulp);
            r = of_int m * ulp
        in if 1023 < e \<or> (e = 1023 \<and> 2 ^ 53 \<le> m)
           then (if 0 < x then Infinity else NegInfinity)
           else Finite (if 0 < x then r else - r))"

text \<open>The \<open>+\<close> of two numbers (\<open>existing.quota += ...\<close>).\<close>

fun number_add :: "number \<Rightarrow> number \<Rightarrow> number" where
  "number_add NaN _ = NaN"
| "number_add _ NaN = NaN"
| "number_add Infinity NegInfinity = NaN"
| "number_add NegInfinity Infinity = NaN"
| "number_add Infinity _ = Infinity"
| "number_add _ Infinity = Infinity"
| "number_add NegInfinity _ = NegInfinity"
| "number_add _ NegInfinity = NegInfinity"
| "number_add (Finite a) (Finite b) = round_double (a + b)"

subsection \<open>\<open>parseFloat\<close> and \<open>parseInt\<close>\<close>

text \<open>
  Strings are byte strings, so of the white space \<open>parseFloat\<close> and \<open>parseInt\<close> skip, the
  ASCII characters (tab, line feed, vertical tab, form feed, carriage return, space) are
  modelled.
\<close>

definition is_space :: "char \<Rightarrow> bool" where
  "is_space c = (c \<in> set [CHR 0x09, CHR 0x0A, CHR 0x0B, CHR 0x0C, CHR 0x0D, CHR 0x20])"

definition is_digit :: "char \<Rightarrow> bool" where
  "is_digit c = (c \<in> set ''0123456789'')"

definition digit_value :: "char \<Rightarrow> int" where
  "digit_value c = of_char c - 48"

definition digits_value :: "string \<Rightarrow> int" where
  "digits_value ds = foldl (\<lambda>n c. 10 * n + digit_value c) 0 ds"

definition pow10 :: "int \<Rightarrow> rat" where
  "pow10 e = (if 0 \<le> e then 10 ^ nat e else 1 / 10 ^ nat (- e))"

text \<open>An optional sign: whether it was a minus, and the rest of the string.\<close>

fun read_sign :: "string \<Rightarrow> bool \<times> string" where
  "read_sign [] = (False, [])"
| "read_sign (c # cs) =
     (if c = CHR ''-'' then (True, cs)
      else if c = CHR ''+'' then (False, cs)
      else (False, c # cs))"

text \<open>
  The exponent part \<open>e\<close>/\<open>E\<close>, optional sign, digits; it belongs to the literal only when at
  least one digit follows, and counts as 0 otherwise.
\<close>

fun read_exponent :: "string \<Rightarrow> int" where
  "read_exponent [] = 0"
| "read_exponent (c # cs) =
     (if c = CHR ''e'' \<or> c = CHR ''E'' then
        (let (neg, r) = read_sign cs; ds = takeWhile is_digit r
         in if ds = [] then 0
            else if neg then - digits_value ds else digits_value ds)
      else 0)"

text \<open>
  The longest prefix of a string, after leading white space, that is a decimal literal:
  a sign and \<open>Infinity\<close>, or a sign and digits with an optional fraction and exponent,
  read as the rational it denotes; \<open>NoLiteral\<close> when no prefix is one.
\<close>

datatype literal = NoLiteral | InfinityLiteral bool | DecimalLiteral rat

definition parse_decimal :: "string \<Rightarrow> literal" where
  "parse_decimal s =
     (let (neg, s2) = read_sign (dropWhile is_space s)
      in if take 8 s2 = ''Infinity'' then InfinityLiteral neg
         else
           let ip = takeWhile is_digit s2;
               r1 = dropWhile is_digit s2;
               (fp, r2) = (case r1 of
                             [] \<Rightarrow> ([], r1)
                           | c # r \<Rightarrow>
                               if c = CHR ''.''
                               then (takeWhile is_digit r, dropWhile is_digit r)
                               else ([], r1))
           in if ip = [] \<and> fp = [] then NoLiteral
              else
                let mv = of_int (digits_value (ip @ fp))
                           * pow10 (read_exponent r2 - int (length fp))
                in DecimalLiteral (if neg then - mv else mv))"

text \<open>\<open>parseFloat\<close>: the value of that literal rounded to a number, or \<open>NaN\<close>.\<close>

definition parseFloat :: "string \<Rightarrow> number" where
  "parseFloat s =
     (case parse_decimal s of
        NoLiteral \<Rightarrow> NaN
      | InfinityLiteral neg \<Rightarrow> (if neg then NegInfinity else Infinity)
      | DecimalLiteral mv \<Rightarrow> round_double mv)"

text \<open>
  \<open>parseInt\<close> with no radix: white space, sign, then decimal digits, or hexadecimal digits
  after \<open>0x\<close>/\<open>0X\<close>; \<open>None\<close> is \<open>NaN\<close>.  The result is kept as the integer the digits denote:
  it is the number \<open>parseInt\<close> returns whenever it is below \<open>2 ^ 53\<close> in magnitude.
\<close>

definition is_hex_digit :: "char \<Rightarrow> bool" where
  "is_hex_digit c = (c \<in> set ''0123456789abcdefABCDEF'')"

definition hex_digit_value :: "char \<Rightarrow> int" where
  "hex_digit_value c =
     (if is_digit c then of_char c - 48
      else if c \<in> set ''abcdef'' then of_char c - 87
      else of_char c - 55)"

definition parseInt :: "string \<Rightarrow> int option" where
  "parseInt s =
     (let (neg, s2) = read_sign (dropWhile is_space s);
          hex = (take 2 s2 = ''0x'' \<or> take 2 s2 = ''0X'');
          ds = (if hex then takeWhile is_hex_digit (drop 2 s2) else takeWhile is_digit s2);
          n = (if hex then foldl (\<lambda>n c. 16 * n + hex_digit_value c) 0 ds
               else digits_value ds)
      in if ds = [] then None
         else Some (if neg then - n else n))"

subsection \<open>Dates\<close>

text \<open>
  A \<open>Date\<close> object holds a time value, milliseconds since the epoch, or \<open>NaN\<close> (an invalid
  date): it is modelled as \<open>int option\<close>.  What the component needs of the host is gathered
  in \<open>js_env\<close>: \<open>Date_parse\<close> is the parser behind \<open>new Date(string)\<close> (\<open>None\<close> for a string
  it cannot read), \<open>LocalTZA t isUTC\<close> is the offset of the local time zone in milliseconds,
  as in ECMAScript (for a UTC instant when \<open>isUTC\<close>, for a local time value otherwise, where
  a local time that is repeated or skipped at a transition reads with the offset before the
  transition), and \<open>invalid_time_message\<close> is the message of the \<open>RangeError\<close> that
  \<open>toISOString\<close> throws on an invalid date (the engines word it differently).

  Time values are mathematical integers: the limit of \<open>8.64e15\<close> milliseconds on a time
  value, the rounding of numbers above \<open>2 ^ 53\<close> and the rule of the \<open>Date\<close> constructor
  for the years 0 to 99 are outside the model; they concern instants before the year 100
  and windows of more than a thousand million hours.
\<close>

record js_env =
  Date_parse :: "string \<Rightarrow> int option"
  LocalTZA :: "int \<Rightarrow> bool \<Rightarrow> int"
  invalid_time_message :: string

datatype thrown = ErrorObject string | NonError

text \<open>
  The string \<open>toISOString\<close> returns for a time value names that instant and no other, and
  \<open>new Date\<close> reads the instant back from it.  Such a string is modelled by the instant.
\<close>

datatype iso_string = ISO (instant: int)

definition toISOString :: "js_env \<Rightarrow> int option \<Rightarrow> thrown + iso_string" where
  "toISOString env date =
     (case date of
        None \<Rightarrow> Inl (ErrorObject (invalid_time_message env))
      | Some t \<Rightarrow> Inr (ISO t))"

definition LocalTime :: "js_env \<Rightarrow> int \<Rightarrow> int" where
  "LocalTime env t = t + LocalTZA env t True"

definition UTC :: "js_env \<Rightarrow> int \<Rightarrow> int" where
  "UTC env t = t - LocalTZA env t False"

text \<open>
  \<open>new Date(d.getFullYear(), d.getMonth(), d.getDate(), d.getHours())\<close>: the year, month,
  day and hour are read off the local time of \<open>d\<close>, and the constructor builds the local
  time with these fields and zero minutes, seconds and milliseconds, that is the local time
  of \<open>d\<close> cut down to the hour, and converts it to UTC.
\<close>

definition local_hour :: "js_env \<Rightarrow> int \<Rightarrow> int" where
  "local_hour env t = UTC env (LocalTime env t div 3600000 * 3600000)"

text \<open>
  The expression the source computes twice under the name \<open>hourKey\<close>.  On an invalid date
  the getters return \<open>NaN\<close>, the constructor builds an invalid date and \<open>toISOString\<close> throws.
\<close>

definition hourKey :: "js_env \<Rightarrow> int option \<Rightarrow> thrown + iso_string" where
  "hourKey env date = toISOString env (map_option (local_hour env) date)"

section \<open>The trend chart (\<open>src/AntiHub/components/quota-trend-chart.tsx\<close>)\<close>

text \<open>
  \<open>QuotaConsumption\<close> is the record type of \<open>@/lib/api\<close>; the component reads the two
  fields below, both strings.  Its field \<open>quota_consumed\<close> is named \<open>quota_consumed_str\<close>
  here, and the field \<open>count\<close> of the accumulator \<open>count_acc\<close>, because \<open>TrendDataPoint\<close>
  has fields of the same names.
\<close>

record QuotaConsumption =
  consumed_at :: string
  quota_consumed_str :: string

record TrendDataPoint =
  time :: iso_string
  quota_consumed :: number
  count :: nat

record hourly =
  quota :: number
  count_acc :: nat

type_synonym hourly_map = "iso_string \<rightharpoonup> hourly"

record consumption_query =
  limit :: int
  start_date :: iso_string
  end_date :: iso_string

text \<open>
  \<open>getQuotaConsumption\<close> of \<open>@/lib/api\<close>: the promise it returns is fulfilled with the
  records or rejected with a thrown value.
\<close>

type_synonym consumption_api = "consumption_query \<Rightarrow> thrown + QuotaConsumption list"

record chart_state =
  timeRange :: string
  data :: "TrendDataPoint list"
  isLoading :: bool
  error :: "string option"

text \<open>The state the component is mounted with.\<close>

definition initial_state :: chart_state where
  "initial_state = \<lparr>timeRange = ''24'', data = [], isLoading = True, error = None\<rparr>"

text \<open>\<open>{ quota: 0, count: 0 }\<close>\<close>

definition empty_hour :: hourly where
  "empty_hour = \<lparr>quota = Finite 0, count_acc = 0\<rparr>"

text \<open>\<open>hourlyData.get(hourKey) || { quota: 0, count: 0 }\<close>\<close>

definition get_or_empty :: "hourly_map \<Rightarrow> iso_string \<Rightarrow> hourly" where
  "get_or_empty hourlyData k = (case hourlyData k of None \<Rightarrow> empty_hour | Some v \<Rightarrow> v)"

text \<open>\<open>existing.quota += parseFloat(record.quota_consumed); existing.count += 1\<close>\<close>

definition add_record :: "QuotaConsumption \<Rightarrow> hourly \<Rightarrow> hourly" where
  "add_record r existing =
     \<lparr>quota = number_add (quota existing) (parseFloat (quota_consumed_str r)),
      count_acc = count_acc existing + 1\<rparr>"

text \<open>
  \<open>consumptionData.forEach(record => ...)\<close>, from the first record to the last; an
  exception ends it.
\<close>

fun forEach_record :: "js_env \<Rightarrow> QuotaConsumption list \<Rightarrow> hourly_map \<Rightarrow> thrown + hourly_map" where
  "forEach_record env [] hourlyData = Inr hourlyData"
| "forEach_record env (r # rs) hourlyData =
     (case hourKey env (Date_parse env (consumed_at r)) of
        Inl e \<Rightarrow> Inl e
      | Inr k \<Rightarrow>
          forEach_record env rs
            (hourlyData(k \<mapsto> add_record r (get_or_empty hourlyData k))))"

text \<open>
  The body of the \<open>for\<close> loop for one \<open>i\<close>.  \<open>time\<close> is a valid date, so its \<open>hourKey\<close> is
  the string of its local hour.
\<close>

definition chart_point :: "js_env \<Rightarrow> int \<Rightarrow> int \<Rightarrow> hourly_map \<Rightarrow> int \<Rightarrow> TrendDataPoint" where
  "chart_point env now hours hourlyData i =
     (let t = now - (hours - i) * 60 * 60 * 1000;
          k = ISO (local_hour env t);
          d = get_or_empty hourlyData k
      in \<lparr>time = k, quota_consumed = quota d, count = count_acc d\<rparr>)"

text \<open>\<open>for (let i = 0; i < hours; i++) chartData.push(...)\<close>\<close>

definition chartData :: "js_env \<Rightarrow> int \<Rightarrow> int \<Rightarrow> hourly_map \<Rightarrow> TrendDataPoint list" where
  "chartData env now hours hourlyData =
     map (\<lambda>i. chart_point env now hours hourlyData (int i)) [0..<nat hours]"

text \<open>
  The \<open>try\<close> block: its outcome (the chart data, or what was thrown) and the requests it
  sent.  When \<open>parseInt\<close> returns \<open>NaN\<close>, \<open>startTime\<close> is an invalid date and
  \<open>startTime.toISOString()\<close> throws before any request is made.
\<close>

definition try_block ::
  "js_env \<Rightarrow> consumption_api \<Rightarrow> int \<Rightarrow> string
     \<Rightarrow> (thrown + TrendDataPoint list) \<times> consumption_query list" where
  "try_block env api now selected =
     (case parseInt selected of
        None \<Rightarrow> (Inl (ErrorObject (invalid_time_message env)), [])
      | Some hours \<Rightarrow>
          (let startTime = now - hours * 60 * 60 * 1000;
               request = \<lparr>limit = 1000, start_date = ISO startTime, end_date = ISO now\<rparr>
           in case api request of
                Inl e \<Rightarrow> (Inl e, [request])
              | Inr consumptionData \<Rightarrow>
                  (case forEach_record env consumptionData Map.empty of
                     Inl e \<Rightarrow> (Inl e, [request])
                   | Inr hourlyData \<Rightarrow>
                       (Inr (chartData env now hours hourlyData), [request]))))"

text \<open>The text of the \<open>catch\<close> clause for a thrown value that is not an \<open>Error\<close> (UTF-8).\<close>

definition load_failed_text :: string where
  "load_failed_text =
     [CHR 0xE5, CHR 0x8A, CHR 0xA0, CHR 0xE8, CHR 0xBD, CHR 0xBD, CHR 0xE8, CHR 0xB6, CHR 0x8B,
      CHR 0xE5, CHR 0x8A, CHR 0xBF, CHR 0xE6, CHR 0x95, CHR 0xB0, CHR 0xE6, CHR 0x8D, CHR 0xAE,
      CHR 0xE5, CHR 0xA4, CHR 0xB1, CHR 0xE8, CHR 0xB4, CHR 0xA5]"

text \<open>\<open>err instanceof Error ? err.message : '...'\<close>\<close>

definition catch_message :: "thrown \<Rightarrow> string" where
  "catch_message err = (case err of ErrorObject message \<Rightarrow> message | NonError \<Rightarrow> load_failed_text)"

text \<open>
  One run of \<open>loadData\<close> to its end, at clock reading \<open>now\<close>: the state of the component
  afterwards and the requests sent.
\<close>

definition loadData ::
  "js_env \<Rightarrow> consumption_api \<Rightarrow> int \<Rightarrow> chart_state \<Rightarrow> chart_state \<times> consumption_query list" where
  "loadData env api now st =
     (let st1 = st\<lparr>isLoading := True, error := None\<rparr>;
          (result, requests) = try_block env api now (timeRange st1);
          st2 = (case result of
                   Inr points \<Rightarrow> st1\<lparr>data := points\<rparr>
                 | Inl err \<Rightarrow> st1\<lparr>error := Some (catch_message err)\<rparr>)
      in (st2\<lparr>isLoading := False\<rparr>, requests))"

section \<open>Notions used to state the properties of the chart\<close>

text \<open>
  The records of a response that fall into the bucket with key \<open>k\<close>: those whose
  \<open>consumed_at\<close> parses to an instant whose local hour is the instant of \<open>k\<close>.
\<close>

definition bucket_records :: "js_env \<Rightarrow> iso_string \<Rightarrow> QuotaConsumption list \<Rightarrow> QuotaConsumption list" where
  "bucket_records env k rs =
     filter (\<lambda>r. map_option (local_hour env) (Date_parse env (consumed_at r)) = Some (instant k)) rs"

text \<open>The sum of numbers as the loop forms it: from zero, adding from left to right.\<close>

definition number_sum :: "number list \<Rightarrow> number" where
  "number_sum xs = foldl number_add (Finite 0) xs"

text \<open>The instants at which the buckets of a series start.\<close>

definition bucket_starts :: "TrendDataPoint list \<Rightarrow> int list" where
  "bucket_starts pts = map (\<lambda>p. instant (time p)) pts"

text \<open>An instant lies in one of the hour-long buckets of a series.\<close>

definition covered :: "TrendDataPoint list \<Rightarrow> int \<Rightarrow> bool" where
  "covered pts t = (\<exists>b \<in> set (bucket_starts pts). b \<le> t \<and> t < b + 3600000)"

text \<open>
  The records of a response consumed in the hour that starts at the instant \<open>b\<close>: those
  whose \<open>consumed_at\<close> parses to an instant from \<open>b\<close> up to, and not including, \<open>b\<close> plus
  one hour.
\<close>

definition hour_records :: "js_env \<Rightarrow> int \<Rightarrow> QuotaConsumption list \<Rightarrow> QuotaConsumption list" where
  "hour_records env b rs =
     filter (\<lambda>r. case Date_parse env (consumed_at r) of
                   None \<Rightarrow> False
                 | Some t \<Rightarrow> b \<le> t \<and> t < b + 3600000) rs"

text \<open>
  Every record of a response was consumed in the range of the request for \<open>h\<close> hours made
  at \<open>now\<close>: its \<open>consumed_at\<close> parses to an instant from \<open>now - h\<close> hours to \<open>now\<close>.
\<close>

definition within_request :: "js_env \<Rightarrow> int \<Rightarrow> int \<Rightarrow> QuotaConsumption list \<Rightarrow> bool" where
  "within_request env now h rs =
     list_all (\<lambda>r. case Date_parse env (consumed_at r) of
                     None \<Rightarrow> False
                   | Some t \<Rightarrow> now - h * 3600000 \<le> t \<and> t \<le> now) rs"

text \<open>The edges of the buckets of a series: where each starts and where it ends.\<close>

definition bucket_edges :: "TrendDataPoint list \<Rightarrow> int set" where
  "bucket_edges pts = set (bucket_starts pts) \<union> (\<lambda>b. b + 3600000) ` set (bucket_starts pts)"

text \<open>
  The top of the hour of the instant \<open>t\<close> on a clock that is \<open>c\<close> milliseconds ahead of
  UTC: \<open>t\<close> cut down to a whole number of hours of that clock.
\<close>

definition hour_start :: "int \<Rightarrow> int \<Rightarrow> int" where
  "hour_start c t = (t + c) div 3600000 * 3600000 - c"

text \<open>
  The zone of the host keeps the offset \<open>c\<close> over a window: from one hour before the
  instant \<open>lo\<close> to the instant \<open>hi\<close>, the offset is \<open>c\<close> at every UTC instant, and at every
  local time that, read with the offset \<open>c\<close>, is such an instant.  (The hour before \<open>lo\<close>
  is there because the hour that holds \<open>lo\<close> can start that much earlier.)  Nothing is
  asked of the zone outside the window.
\<close>

definition constant_offset_over :: "js_env \<Rightarrow> int \<Rightarrow> int \<Rightarrow> int \<Rightarrow> bool" where
  "constant_offset_over env c lo hi =
     (\<forall>t isUTC.
        lo - 3600000 \<le> (if isUTC then t else t - c) \<and> (if isUTC then t else t - c) \<le> hi
        \<longrightarrow> LocalTZA env t isUTC = c)"

text \<open>
  A run of \<open>loadData\<close> that selects \<open>h\<close> hours and whose request is answered with the
  records \<open>rs\<close>, each with a \<open>consumed_at\<close> the host can parse.
\<close>

definition answered :: "js_env \<Rightarrow> consumption_api \<Rightarrow> int \<Rightarrow> chart_state \<Rightarrow> int \<Rightarrow> QuotaConsumption list \<Rightarrow> bool" where
  "answered env api now st h rs =
     (parseInt (timeRange st) = Some h
      \<and> api \<lparr>limit = 1000, start_date = ISO (now - h * 3600000), end_date = ISO now\<rparr> = Inr rs
      \<and> (\<forall>r \<in> set rs. Date_parse env (consumed_at r) \<noteq> None))"

text \<open>The series a run of \<open>loadData\<close> leaves in the state.\<close>

definition series :: "js_env \<Rightarrow> consumption_api \<Rightarrow> int \<Rightarrow> chart_state \<Rightarrow> TrendDataPoint list" where
  "series env api now st = data (fst (loadData env api now st))"

text \<open>
  The exact side of the amounts.  A \<open>quota_consumed\<close> field is a decimal string when it
  starts with a decimal literal, and \<open>amount\<close> is the rational the literal denotes.  A
  rational is representable when rounding to a number leaves it as it is.
  \<open>running_sums a xs\<close> lists \<open>a\<close>, \<open>a + x1\<close>, \<open>a + x1 + x2\<close>, and so on.
\<close>

definition is_decimal :: "string \<Rightarrow> bool" where
  "is_decimal s = (case parse_decimal s of DecimalLiteral v \<Rightarrow> True | _ \<Rightarrow> False)"

definition amount :: "QuotaConsumption \<Rightarrow> rat" where
  "amount r = (case parse_decimal (quota_consumed_str r) of DecimalLiteral v \<Rightarrow> v | _ \<Rightarrow> 0)"

definition representable :: "rat \<Rightarrow> bool" where
  "representable x = (round_double x = Finite x)"

fun running_sums :: "rat \<Rightarrow> rat list \<Rightarrow> rat list" where
  "running_sums a [] = [a]"
| "running_sums a (x # xs) = a # running_sums (a + x) xs"

section \<open>Example hosts and answers\<close>

text \<open>
  Hosts for the examples.  Both read the timestamps the examples use, in the format of
  \<open>toISOString\<close>, and word the \<open>RangeError\<close> as V8 does.  \<open>utc_host\<close> runs in UTC.
  \<open>berlin_host\<close> runs in the zone Europe/Berlin as it was in 2024: UTC+1 until 01:00 UTC
  on 31 March (instant 1711846800000), when the clocks went forward from 02:00 to 03:00,
  then UTC+2 until 01:00 UTC on 27 October (instant 1729990800000), when they went back
  from 03:00 to 02:00, then UTC+1.  A local time that the change of March skips, or that
  the change of October repeats, reads with the offset before the change.
\<close>

definition example_timestamps :: "string \<Rightarrow> int option" where
  "example_timestamps =
     [''2024-01-01T10:15:00.000Z'' \<mapsto> 1704104100000,
      ''2024-01-01T10:20:00.000Z'' \<mapsto> 1704104400000,
      ''2024-10-27T00:10:00.000Z'' \<mapsto> 1729987800000,
      ''2024-10-27T01:10:00.000Z'' \<mapsto> 1729991400000,
      ''2024-10-27T03:10:00.000Z'' \<mapsto> 1729998600000]"

definition utc_host :: js_env where
  "utc_host =
     \<lparr>Date_parse = example_timestamps,
      LocalTZA = (\<lambda>t isUTC. 0),
      invalid_time_message = ''Invalid time value''\<rparr>"

definition berlin_host :: js_env where
  "berlin_host =
     \<lparr>Date_parse = example_timestamps,
      LocalTZA = (\<lambda>t isUTC.
         if isUTC then
           (if t < 1711846800000 then 3600000
            else if t < 1729990800000 then 7200000
            else 3600000)
         else
           (if t < 1711846800000 + 7200000 then 3600000
            else if t < 1729990800000 + 7200000 then 7200000
            else 3600000)),
      invalid_time_message = ''Invalid time value''\<rparr>"

text \<open>Two records of the hour from 10:00 on 1 January 2024 (UTC).\<close>

definition example_response :: "QuotaConsumption list" where
  "example_response =
     [\<lparr>consumed_at = ''2024-01-01T10:15:00.000Z'', quota_consumed_str = ''5''\<rparr>,
      \<lparr>consumed_at = ''2024-01-01T10:20:00.000Z'', quota_consumed_str = ''1.5''\<rparr>]"

text \<open>Two records of the hour from 10:00 on 1 January 2024 (UTC), of 0.1 and 0.2.\<close>

definition drift_response :: "QuotaConsumption list" where
  "drift_response =
     [\<lparr>consumed_at = ''2024-01-01T10:15:00.000Z'', quota_consumed_str = ''0.1''\<rparr>,
      \<lparr>consumed_at = ''2024-01-01T10:20:00.000Z'', quota_consumed_str = ''0.2''\<rparr>]"

text \<open>Two records on 27 October 2024, at 00:10 and at 03:10 UTC.\<close>

definition berlin_response :: "QuotaConsumption list" where
  "berlin_response =
     [\<lparr>consumed_at = ''2024-10-27T00:10:00.000Z'', quota_consumed_str = ''5''\<rparr>,
      \<lparr>consumed_at = ''2024-10-27T03:10:00.000Z'', quota_consumed_str = ''1.5''\<rparr>]"

text \<open>
  Two records on 27 October 2024, at 00:10 and at 01:10 UTC, one in each of the two
  hours that read 02:00 to 03:00 on a clock in Berlin.
\<close>

definition clock_change_response :: "QuotaConsumption list" where
  "clock_change_response =
     [\<lparr>consumed_at = ''2024-10-27T00:10:00.000Z'', quota_consumed_str = ''5''\<rparr>,
      \<lparr>consumed_at = ''2024-10-27T01:10:00.000Z'', quota_consumed_str = ''1.5''\<rparr>]"

section \<open>Ledger engine: the admission check\<close>

text \<open>
  The sources of the repository hold no ledger code; what follows is written from section
  4.1 of the specification.  Amounts are exact rationals.  The field \<open>created_at\<close> of a
  reservation is left out: the admission check does not read it.
\<close>

datatype reservation_state = Pending | Committed | Released

record Reservation =
  reservation_id :: nat
  pool_id :: string
  reserved_amount :: rat
  state :: reservation_state

record ledger =
  remaining_quota :: "string \<rightharpoonup> rat"
  reservations :: "Reservation list"

datatype reserve_failure = InsufficientQuota | PoolUnknown

text \<open>
  Modelled from the spec: \<open>CheckAndReserve(pool_id, estimated_amount)\<close> of the Ledger
  Engine, which is not in the sources.  In one atomic step it reads the remaining quota of
  the pool, verifies that it is at least the estimated amount, decrements the counter and
  records a Pending reservation, returning the reservation; on insufficient quota, and on
  an unknown pool, it fails without changing the state.
\<close>

definition CheckAndReserve ::
  "string \<Rightarrow> rat \<Rightarrow> ledger \<Rightarrow> (reserve_failure + Reservation) \<times> ledger" where
  "CheckAndReserve pool estimated_amount l =
     (case remaining_quota l pool of
        None \<Rightarrow> (Inl PoolUnknown, l)
      | Some remaining \<Rightarrow>
          if estimated_amount \<le> remaining then
            (let r = \<lparr>reservation_id = length (reservations l), pool_id = pool,
                      reserved_amount = estimated_amount, state = Pending\<rparr>
             in (Inr r,
                 l\<lparr>remaining_quota := (remaining_quota l)(pool \<mapsto> remaining - estimated_amount),
                   reservations := reservations l @ [r]\<rparr>))
          else (Inl InsufficientQuota, l))"

text \<open>
  Modelled from the spec: two concurrent calls of \<open>CheckAndReserve\<close> on one pool.  Each
  call is a single atomic step, so an execution of the two performs them in one of the two
  orders; the result is what the first caller and the second caller get, and the ledger
  afterwards.
\<close>

datatype schedule = FirstCallerFirst | SecondCallerFirst

definition concurrent_reserve ::
  "schedule \<Rightarrow> string \<Rightarrow> rat \<Rightarrow> rat \<Rightarrow> ledger
     \<Rightarrow> (reserve_failure + Reservation) \<times> (reserve_failure + Reservation) \<times> ledger" where
  "concurrent_reserve s pool a b l =
     (case s of
        FirstCallerFirst \<Rightarrow>
          (let (ra, l1) = CheckAndReserve pool a l;
               (rb, l2) = CheckAndReserve pool b l1
           in (ra, rb, l2))
      | SecondCallerFirst \<Rightarrow>
          (let (rb, l1) = CheckAndReserve pool b l;
               (ra, l2) = CheckAndReserve pool a l1
           in (ra, rb, l2)))"

text \<open>A call succeeded when it returned a reservation.\<close>

definition succeeded :: "reserve_failure + Reservation \<Rightarrow> bool" where
  "succeeded r = (case r of Inr _ \<Rightarrow> True | Inl _ \<Rightarrow> False)"

section \<open>Properties of the container scripts\<close>

lemma execute_fresh:
  "\<not> database_exists cat name \<Longrightarrow>
     execute (CreateDatabase name owner) cat = Inr (cat @ [\<lparr>datname = name, datdba = owner\<rparr>])"
  by simp

lemma init_existing:
  assumes "env ''POSTGRES_USER'' = Some u" and "env ''POSTGRES_DB'' = Some d"
    and "database_exists cat d" and "database_exists cat ''antigravity''"
  shows "init_antigravity_db env cat = Inr cat"
  using assms by (simp add: init_antigravity_db_def select_create_def)

lemma init_fresh:
  assumes "env ''POSTGRES_USER'' = Some u" and "env ''POSTGRES_DB'' = Some d"
    and "database_exists cat d" and "\<not> database_exists cat ''antigravity''"
  shows "init_antigravity_db env cat = Inr (cat @ [\<lparr>datname = ''antigravity'', datdba = u\<rparr>])"
  using assms by (simp add: init_antigravity_db_def select_create_def)

lemma count_named_absent:
  "\<not> database_exists cat name \<Longrightarrow> count_named cat name = 0"
  by (induction cat) (auto simp: count_named_def database_exists_def)

lemma count_named_distinct:
  "distinct (map datname cat) \<Longrightarrow> database_exists cat name \<Longrightarrow> count_named cat name = 1"
proof (induction cat)
  case Nil
  then show ?case by (simp add: database_exists_def)
next
  case (Cons r cat)
  show ?case
  proof (cases "datname r = name")
    case True
    with Cons.prems have "\<not> database_exists cat name"
      by (auto simp: database_exists_def)
    then have "count_named cat name = 0" by (rule count_named_absent)
    with True show ?thesis by (simp add: count_named_def)
  next
    case False
    with Cons.prems have "database_exists cat name" "distinct (map datname cat)"
      by (auto simp: database_exists_def)
    with Cons.IH have "count_named cat name = 1" by simp
    with False show ?thesis by (simp add: count_named_def)
  qed
qed

lemma init_runs_settled:
  assumes "env ''POSTGRES_USER'' = Some u" and "env ''POSTGRES_DB'' = Some d"
    and "database_exists cat d" and "database_exists cat ''antigravity''"
  shows "init_runs n env cat = Inr cat"
  by (induction n) (simp_all add: init_existing [OF assms])

lemma init_once:
  assumes "env ''POSTGRES_USER'' = Some u" and "env ''POSTGRES_DB'' = Some d"
    and "database_exists cat d"
  shows "init_antigravity_db env cat =
           Inr (if database_exists cat ''antigravity'' then cat
                else cat @ [\<lparr>datname = ''antigravity'', datdba = u\<rparr>])"
  using assms by (simp add: init_existing init_fresh)

lemma database_exists_append:
  "database_exists (cat @ [r]) name = (database_exists cat name \<or> datname r = name)"
  by (auto simp: database_exists_def)

lemma count_named_append:
  "count_named (cat @ [r]) name = count_named cat name + (if datname r = name then 1 else 0)"
  by (simp add: count_named_def)

text \<open>
  Claim C9.  Take an environment in which \<open>POSTGRES_USER\<close> and \<open>POSTGRES_DB\<close> are set, and a
  catalog with unique database names that holds the database \<open>POSTGRES_DB\<close> the session
  connects to.  Then \<open>n \<ge> 1\<close> runs of the initialisation script all succeed and leave the
  catalog \<open>cat'\<close>, which is the starting catalog itself when it already held a database
  named \<open>antigravity\<close> (nothing is created) and the starting catalog with the one new row
  otherwise; \<open>cat'\<close> holds exactly one database named \<open>antigravity\<close>, and one more run
  returns \<open>cat'\<close> unchanged.
\<close>

theorem init_antigravity_db_idempotent:
  assumes "env ''POSTGRES_USER'' = Some u" and "env ''POSTGRES_DB'' = Some d"
    and "database_exists cat d" and "distinct (map datname cat)" and "0 < n"
  shows "let cat' = (if database_exists cat ''antigravity'' then cat
                     else cat @ [\<lparr>datname = ''antigravity'', datdba = u\<rparr>])
         in init_runs n env cat = Inr cat'
          \<and> count_named cat' ''antigravity'' = 1
          \<and> init_antigravity_db env cat' = Inr cat'"
proof -
  define cat' where
    "cat' = (if database_exists cat ''antigravity'' then cat
             else cat @ [\<lparr>datname = ''antigravity'', datdba = u\<rparr>])"
  have first: "init_antigravity_db env cat = Inr cat'"
    unfolding cat'_def by (rule init_once [OF assms(1-3)])
  have d': "database_exists cat' d"
    using assms(3) by (simp add: cat'_def database_exists_append)
  have a': "database_exists cat' ''antigravity''"
    by (simp add: cat'_def database_exists_append)
  obtain m where n: "n = Suc m"
    using assms(5) by (cases n) auto
  have rest: "init_runs m env cat' = Inr cat'"
    by (rule init_runs_settled [OF assms(1,2) d' a'])
  have runs: "init_runs n env cat = Inr cat'"
    by (simp add: n first rest)
  have one: "count_named cat' ''antigravity'' = 1"
  proof (cases "database_exists cat ''antigravity''")
    case True
    then show ?thesis
      using assms(4) by (simp add: cat'_def count_named_distinct)
  next
    case False
    then show ?thesis
      by (simp add: cat'_def count_named_append count_named_absent)
  qed
  have again: "init_antigravity_db env cat' = Inr cat'"
    by (rule init_existing [OF assms(1,2) d' a'])
  show ?thesis
    using runs one again by (simp add: cat'_def Let_def)
qed

theorem init_antigravity_db_idempotent_witness:
  "init_runs 3 [''POSTGRES_USER'' \<mapsto> ''postgres'', ''POSTGRES_DB'' \<mapsto> ''antihub'']
       [\<lparr>datname = ''postgres'', datdba = ''postgres''\<rparr>,
        \<lparr>datname = ''antihub'', datdba = ''postgres''\<rparr>]
     = Inr [\<lparr>datname = ''postgres'', datdba = ''postgres''\<rparr>,
            \<lparr>datname = ''antihub'', datdba = ''postgres''\<rparr>,
            \<lparr>datname = ''antigravity'', datdba = ''postgres''\<rparr>]
   \<and> count_named [\<lparr>datname = ''postgres'', datdba = ''postgres''\<rparr>,
            \<lparr>datname = ''antihub'', datdba = ''postgres''\<rparr>,
            \<lparr>datname = ''antigravity'', datdba = ''postgres''\<rparr>] ''antigravity'' = 1
   \<and> init_antigravity_db [''POSTGRES_USER'' \<mapsto> ''postgres'', ''POSTGRES_DB'' \<mapsto> ''antihub'']
       [\<lparr>datname = ''postgres'', datdba = ''postgres''\<rparr>,
        \<lparr>datname = ''antihub'', datdba = ''postgres''\<rparr>,
        \<lparr>datname = ''antigravity'', datdba = ''postgres''\<rparr>]
     = Inr [\<lparr>datname = ''postgres'', datdba = ''postgres''\<rparr>,
            \<lparr>datname = ''antihub'', datdba = ''postgres''\<rparr>,
            \<lparr>datname = ''antigravity'', datdba = ''postgres''\<rparr>]"
  using init_antigravity_db_idempotent
    [of "[''POSTGRES_USER'' \<mapsto> ''postgres'', ''POSTGRES_DB'' \<mapsto> ''antihub'']"
        "''postgres''" "''antihub''"
        "[\<lparr>datname = ''postgres'', datdba = ''postgres''\<rparr>,
          \<lparr>datname = ''antihub'', datdba = ''postgres''\<rparr>]" 3]
  by (simp add: database_exists_def Let_def)

lemma fs_echo [simp]: "fs (echo s c) = fs c"
  by (simp add: echo_def)

lemma fs_cat_file [simp]: "fs (cat_file p c) = fs c"
  by (simp add: cat_file_def split: option.split fs_node.split)

lemma fs_write_file:
  "fs (write_file p t c) =
     (case fs c p of Some Directory \<Rightarrow> fs c | _ \<Rightarrow> (fs c)(p \<mapsto> RegularFile t))"
  by (simp add: write_file_def split: option.split fs_node.split)

lemma fs_entrypoint:
  "fs (entrypoint env c) =
     (if test_f (fs c) CONFIG_FILE then fs c
      else case fs c CONFIG_FILE of
             Some Directory \<Rightarrow> fs c
           | _ \<Rightarrow> (fs c)(CONFIG_FILE \<mapsto> RegularFile (config_json env)))"
  by (simp add: entrypoint_def Let_def fs_write_file split: option.split fs_node.split)


lemma param_default_unset:
  assumes "env v = None" and "w = v \<longrightarrow> dw = d"
  shows "param_default (env(v \<mapsto> d)) w dw = param_default env w dw"
  using assms by (auto simp: param_default_def)

lemma config_json_unset:
  assumes "(v, d) \<in> set config_defaults" and "env v = None"
  shows "config_json env = config_json (env(v \<mapsto> d))"
  using assms unfolding config_defaults_def config_json_def
  by (auto simp: param_default_unset)

text \<open>
  Claim C8.  When \<open>/app/config.json\<close> is a regular file, the entry point leaves the whole
  file system, and so the file's contents, as it found it.  When the path is absent, the
  file system afterwards differs from the one before in that path alone, which holds the
  configuration generated from the environment.  The file system changes only when the
  path was absent.  In the generated text an unset variable reads as its default: for each
  variable of the template, unset gives the same text as setting it to the default, and
  with every variable unset the text is the one with port 8045, database antigv, redis
  port 6379 and adminApiKey sk-admin-default-key.
\<close>

theorem entrypoint_keeps_existing_config:
  "(\<forall>old. fs c CONFIG_FILE = Some (RegularFile old) \<longrightarrow> fs (entrypoint env c) = fs c)
   \<and> (fs c CONFIG_FILE = None \<longrightarrow>
        fs (entrypoint env c) = (fs c)(CONFIG_FILE \<mapsto> RegularFile (config_json env)))
   \<and> (fs (entrypoint env c) \<noteq> fs c \<longrightarrow> fs c CONFIG_FILE = None)
   \<and> (\<forall>(v, d) \<in> set config_defaults. env v = None \<longrightarrow>
         config_json env = config_json (env(v \<mapsto> d)))
   \<and> config_json Map.empty = heredoc
       [''{'',
        ''  \"server\": {'',
        ''    \"port\": \"8045\",'',
        ''    \"host\": \"0.0.0.0\"'',
        ''  },'',
        ''  \"database\": {'',
        ''    \"host\": \"localhost\",'',
        ''    \"port\": 5432,'',
        ''    \"database\": \"antigv\",'',
        ''    \"user\": \"postgres\",'',
        ''    \"password\": \"postgres\",'',
        ''    \"max\": 20,'',
        ''    \"idleTimeoutMillis\": 30000,'',
        ''    \"connectionTimeoutMillis\": 2000'',
        ''  },'',
        ''  \"redis\": {'',
        ''    \"host\": \"localhost\",'',
        ''    \"port\": 6379,'',
        ''    \"password\": \"\",'',
        ''    \"db\": 0'',
        ''  },'',
        ''  \"oauth\": {'',
        ''    \"callbackUrl\": \"http://localhost:8045/api/oauth/callback\"'',
        ''  },'',
        ''  \"security\": {'',
        ''    \"maxRequestSize\": \"50mb\",'',
        ''    \"adminApiKey\": \"sk-admin-default-key\"'',
        ''  },'',
        ''  \"systemInstruction\": \"\"'',
        ''}'']"
proof (intro conjI allI impI ballI)
  fix old assume "fs c CONFIG_FILE = Some (RegularFile old)"
  then show "fs (entrypoint env c) = fs c"
    by (simp add: fs_entrypoint test_f_def)
next
  assume "fs c CONFIG_FILE = None"
  then show "fs (entrypoint env c) = (fs c)(CONFIG_FILE \<mapsto> RegularFile (config_json env))"
    by (simp add: fs_entrypoint test_f_def)
next
  assume "fs (entrypoint env c) \<noteq> fs c"
  then show "fs c CONFIG_FILE = None"
    by (auto simp: fs_entrypoint test_f_def split: if_splits option.splits fs_node.splits)
next
  fix x assume m: "x \<in> set config_defaults"
  show "case x of (v, d) \<Rightarrow> env v = None \<longrightarrow> config_json env = config_json (env(v \<mapsto> d))"
  proof (cases x)
    case (Pair v d)
    with m show ?thesis
      by (auto intro: config_json_unset)
  qed
next
  show "config_json Map.empty = heredoc
       [''{'',
        ''  \"server\": {'',
        ''    \"port\": \"8045\",'',
        ''    \"host\": \"0.0.0.0\"'',
        ''  },'',
        ''  \"database\": {'',
        ''    \"host\": \"localhost\",'',
        ''    \"port\": 5432,'',
        ''    \"database\": \"antigv\",'',
        ''    \"user\": \"postgres\",'',
        ''    \"password\": \"postgres\",'',
        ''    \"max\": 20,'',
        ''    \"idleTimeoutMillis\": 30000,'',
        ''    \"connectionTimeoutMillis\": 2000'',
        ''  },'',
        ''  \"redis\": {'',
        ''    \"host\": \"localhost\",'',
        ''    \"port\": 6379,'',
        ''    \"password\": \"\",'',
        ''    \"db\": 0'',
        ''  },'',
        ''  \"oauth\": {'',
        ''    \"callbackUrl\": \"http://localhost:8045/api/oauth/callback\"'',
        ''  },'',
        ''  \"security\": {'',
        ''    \"maxRequestSize\": \"50mb\",'',
        ''    \"adminApiKey\": \"sk-admin-default-key\"'',
        ''  },'',
        ''  \"systemInstruction\": \"\"'',
        ''}'']"
    by (simp add: config_json_def param_default_def)
qed


theorem entrypoint_keeps_existing_config_witness:
  "fs (entrypoint [''PORT'' \<mapsto> ''9000'']
         \<lparr>fs = [CONFIG_FILE \<mapsto> RegularFile ''{}''], stdout = [], exec_argv = None\<rparr>)
     = [CONFIG_FILE \<mapsto> RegularFile ''{}'']
   \<and> fs (entrypoint [''PORT'' \<mapsto> ''9000''] \<lparr>fs = Map.empty, stdout = [], exec_argv = None\<rparr>)
     = [CONFIG_FILE \<mapsto> RegularFile (config_json [''PORT'' \<mapsto> ''9000''])]
   \<and> config_json [''PORT'' \<mapsto> ''9000'']
     = config_json [''PORT'' \<mapsto> ''9000'', ''DB_NAME'' \<mapsto> ''antigv'']"
proof -
  let ?e = "[''PORT'' \<mapsto> ''9000'']"
  let ?c1 = "\<lparr>fs = [CONFIG_FILE \<mapsto> RegularFile ''{}''], stdout = [], exec_argv = None\<rparr>"
  let ?c2 = "\<lparr>fs = Map.empty, stdout = [], exec_argv = None\<rparr>"
  note t1 = entrypoint_keeps_existing_config [of ?c1 ?e]
  note t2 = entrypoint_keeps_existing_config [of ?c2 ?e]
  have a: "fs (entrypoint ?e ?c1) = fs ?c1"
    by (rule t1 [THEN conjunct1, THEN spec, THEN mp]) simp
  have b: "fs (entrypoint ?e ?c2) = (fs ?c2)(CONFIG_FILE \<mapsto> RegularFile (config_json ?e))"
    by (rule t2 [THEN conjunct2, THEN conjunct1, THEN mp]) simp
  have m: "(''DB_NAME'', ''antigv'') \<in> set config_defaults"
    by (simp add: config_defaults_def)
  have c: "config_json ?e = config_json (?e(''DB_NAME'' \<mapsto> ''antigv''))"
    using bspec [OF t2 [THEN conjunct2, THEN conjunct2, THEN conjunct2, THEN conjunct1] m]
    by simp
  show ?thesis
    using a b c by simp
qed

section \<open>Properties of the trend chart\<close>

subsection \<open>The aggregation loop\<close>

lemma ms_hours: "h * 60 * 60 * 1000 = h * (3600000::int)"
  by simp

lemma hourKey_Some: "hourKey env (Some t) = Inr (ISO (local_hour env t))"
  by (simp add: hourKey_def toISOString_def)

lemma hourKey_None: "hourKey env None = Inl (ErrorObject (invalid_time_message env))"
  by (simp add: hourKey_def toISOString_def)

lemma get_or_empty_upd:
  "get_or_empty (m(k \<mapsto> v)) k' = (if k' = k then v else get_or_empty m k')"
  by (simp add: get_or_empty_def)

lemma bucket_records_Cons:
  "bucket_records env k (r # rs) =
     (if map_option (local_hour env) (Date_parse env (consumed_at r)) = Some (instant k)
      then r # bucket_records env k rs else bucket_records env k rs)"
  by (simp add: bucket_records_def)

lemma forEach_record_lookup:
  "forEach_record env rs m = Inr m' \<Longrightarrow>
     get_or_empty m' k =
       foldl (\<lambda>a r. add_record r a) (get_or_empty m k) (bucket_records env k rs)"
proof (induction rs arbitrary: m)
  case Nil
  then show ?case by (simp add: bucket_records_def)
next
  case (Cons r rs)
  show ?case
  proof (cases "Date_parse env (consumed_at r)")
    case None
    with Cons.prems show ?thesis by (simp add: hourKey_None)
  next
    case (Some t)
    let ?key = "ISO (local_hour env t)"
    let ?m1 = "m(?key \<mapsto> add_record r (get_or_empty m ?key))"
    from Cons.prems Some have run: "forEach_record env rs ?m1 = Inr m'"
      by (simp add: hourKey_Some)
    have same: "(k = ?key) = (local_hour env t = instant k)"
      by (cases k) auto
    from Cons.IH [OF run]
    have "get_or_empty m' k =
            foldl (\<lambda>a r. add_record r a) (get_or_empty ?m1 k) (bucket_records env k rs)" .
    then show ?thesis
      using Some same by (simp add: bucket_records_Cons get_or_empty_upd)
  qed
qed

lemma forEach_record_succeeds:
  "\<forall>r \<in> set rs. Date_parse env (consumed_at r) \<noteq> None \<Longrightarrow>
     \<exists>m'. forEach_record env rs m = Inr m'"
proof (induction rs arbitrary: m)
  case Nil
  then show ?case by simp
next
  case (Cons r rs)
  then obtain t where t: "Date_parse env (consumed_at r) = Some t"
    by auto
  from Cons.prems have "\<forall>r \<in> set rs. Date_parse env (consumed_at r) \<noteq> None"
    by simp
  from Cons.IH [OF this] show ?case
    by (simp add: t hourKey_Some)
qed

lemma quota_foldl_add_record:
  "quota (foldl (\<lambda>a r. add_record r a) a0 rs) =
     foldl number_add (quota a0) (map (\<lambda>r. parseFloat (quota_consumed_str r)) rs)"
  by (induction rs arbitrary: a0) (simp_all add: add_record_def)

lemma count_foldl_add_record:
  "count_acc (foldl (\<lambda>a r. add_record r a) a0 rs) = count_acc a0 + length rs"
  by (induction rs arbitrary: a0) (simp_all add: add_record_def)

lemma get_or_empty_empty: "get_or_empty Map.empty k = empty_hour"
  by (simp add: get_or_empty_def)

lemma forEach_record_quota:
  assumes "forEach_record env rs Map.empty = Inr m"
  shows "quota (get_or_empty m k) =
           number_sum (map (\<lambda>r. parseFloat (quota_consumed_str r)) (bucket_records env k rs))"
  using forEach_record_lookup [OF assms, of k]
  by (simp add: quota_foldl_add_record get_or_empty_empty number_sum_def empty_hour_def)

lemma forEach_record_count:
  assumes "forEach_record env rs Map.empty = Inr m"
  shows "count_acc (get_or_empty m k) = length (bucket_records env k rs)"
  using forEach_record_lookup [OF assms, of k]
  by (simp add: count_foldl_add_record get_or_empty_empty empty_hour_def)

subsection \<open>The series\<close>

lemma length_chartData: "length (chartData env now hours m) = nat hours"
  by (simp add: chartData_def)

lemma nth_chartData:
  "i < nat hours \<Longrightarrow> chartData env now hours m ! i = chart_point env now hours m (int i)"
  by (simp add: chartData_def)

lemma time_chart_point:
  "time (chart_point env now hours m i) = ISO (local_hour env (now - (hours - i) * 3600000))"
  unfolding chart_point_def ms_hours by (simp add: Let_def)

lemma quota_chart_point:
  "quota_consumed (chart_point env now hours m i) =
     quota (get_or_empty m (time (chart_point env now hours m i)))"
  by (simp add: chart_point_def Let_def)

lemma count_chart_point:
  "count (chart_point env now hours m i) =
     count_acc (get_or_empty m (time (chart_point env now hours m i)))"
  by (simp add: chart_point_def Let_def)

lemma in_chartData:
  "p \<in> set (chartData env now hours m) \<Longrightarrow>
     \<exists>i. 0 \<le> i \<and> i < hours \<and> p = chart_point env now hours m i"
proof -
  assume "p \<in> set (chartData env now hours m)"
  then obtain n where n: "n < nat hours" "p = chart_point env now hours m (int n)"
    by (auto simp: chartData_def)
  then have "0 \<le> int n \<and> int n < hours \<and> p = chart_point env now hours m (int n)"
    by auto
  then show ?thesis by blast
qed

lemma point_quota:
  assumes "forEach_record env rs Map.empty = Inr m"
    and "p \<in> set (chartData env now hours m)"
  shows "quota_consumed p =
           number_sum (map (\<lambda>r. parseFloat (quota_consumed_str r)) (bucket_records env (time p) rs))"
  using in_chartData [OF assms(2)] forEach_record_quota [OF assms(1)]
  by (auto simp: quota_chart_point)

lemma point_count:
  assumes "forEach_record env rs Map.empty = Inr m"
    and "p \<in> set (chartData env now hours m)"
  shows "count p = length (bucket_records env (time p) rs)"
  using in_chartData [OF assms(2)] forEach_record_count [OF assms(1)]
  by (auto simp: count_chart_point)

subsection \<open>One run of \<open>loadData\<close>\<close>

lemma try_block_fulfilled:
  assumes "parseInt selected = Some h"
    and "api \<lparr>limit = 1000, start_date = ISO (now - h * 3600000), end_date = ISO now\<rparr> = Inr rs"
    and "forEach_record env rs Map.empty = Inr m"
  shows "try_block env api now selected =
           (Inr (chartData env now h m),
            [\<lparr>limit = 1000, start_date = ISO (now - h * 3600000), end_date = ISO now\<rparr>])"
  using assms unfolding try_block_def ms_hours by (simp add: Let_def)

lemma try_block_rejected:
  assumes "parseInt selected = Some h"
    and "api \<lparr>limit = 1000, start_date = ISO (now - h * 3600000), end_date = ISO now\<rparr> = Inl e"
  shows "try_block env api now selected =
           (Inl e, [\<lparr>limit = 1000, start_date = ISO (now - h * 3600000), end_date = ISO now\<rparr>])"
  using assms unfolding try_block_def ms_hours by (simp add: Let_def)

lemma loadData_fulfilled:
  assumes "parseInt (timeRange st) = Some h"
    and "api \<lparr>limit = 1000, start_date = ISO (now - h * 3600000), end_date = ISO now\<rparr> = Inr rs"
    and "forEach_record env rs Map.empty = Inr m"
  shows "loadData env api now st =
           (st\<lparr>isLoading := False, error := None, data := chartData env now h m\<rparr>,
            [\<lparr>limit = 1000, start_date = ISO (now - h * 3600000), end_date = ISO now\<rparr>])"
  using assms by (simp add: loadData_def try_block_fulfilled)

lemma loadData_rejected:
  assumes "parseInt (timeRange st) = Some h"
    and "api \<lparr>limit = 1000, start_date = ISO (now - h * 3600000), end_date = ISO now\<rparr> = Inl e"
  shows "loadData env api now st =
           (st\<lparr>isLoading := False, error := Some (catch_message e)\<rparr>,
            [\<lparr>limit = 1000, start_date = ISO (now - h * 3600000), end_date = ISO now\<rparr>])"
  using assms by (simp add: loadData_def try_block_rejected)

lemma loadData_data:
  assumes "parseInt (timeRange st) = Some h"
    and "api \<lparr>limit = 1000, start_date = ISO (now - h * 3600000), end_date = ISO now\<rparr> = Inr rs"
    and "\<forall>r \<in> set rs. Date_parse env (consumed_at r) \<noteq> None"
  shows "\<exists>m. forEach_record env rs Map.empty = Inr m
           \<and> data (fst (loadData env api now st)) = chartData env now h m"
proof -
  from forEach_record_succeeds [OF assms(3)]
  obtain m where m: "forEach_record env rs Map.empty = Inr m" by blast
  from loadData_fulfilled [where api = api and now = now and h = h, OF assms(1,2) m]
  have "data (fst (loadData env api now st)) = chartData env now h m" by simp
  with m show ?thesis by blast
qed

lemma answered_series:
  assumes "answered env api now st h rs"
  shows "\<exists>m. forEach_record env rs Map.empty = Inr m
           \<and> series env api now st = chartData env now h m"
  using assms loadData_data [where api = api and now = now and h = h and env = env and st = st and rs = rs]
  by (simp add: answered_def series_def)

subsection \<open>The example runs\<close>

lemma example_response_parses:
  "\<forall>r \<in> set example_response. Date_parse utc_host (consumed_at r) \<noteq> None"
  by (simp add: example_response_def utc_host_def example_timestamps_def)

lemma parseInt_24: "parseInt ''24'' = Some 24"
  by code_simp

lemma parseInt_48: "parseInt ''48'' = Some 48"
  by code_simp

lemma parseInt_168: "parseInt ''168'' = Some 168"
  by code_simp

lemma answered_example:
  "answered utc_host (\<lambda>q. Inr example_response) 1704108600000 initial_state 24 example_response"
  using example_response_parses
  by (simp add: answered_def initial_state_def parseInt_24)

lemma utc_host_offset: "constant_offset_over utc_host 0 lo hi"
  by (simp add: constant_offset_over_def utc_host_def)

lemma berlin_host_january:
  "constant_offset_over berlin_host 3600000 (1704108600000 - 24 * 3600000) 1704108600000"
  by (auto simp: constant_offset_over_def berlin_host_def)

lemma answered_january:
  "answered berlin_host (\<lambda>q. Inr example_response) 1704108600000 initial_state 24
     example_response"
  by (simp add: answered_def initial_state_def parseInt_24 example_response_def
        berlin_host_def example_timestamps_def)

subsection \<open>Hours of a clock with a fixed offset\<close>

lemma hour_start_le: "hour_start c t \<le> t"
proof -
  have "(t + c) div 3600000 * 3600000 \<le> t + c"
    by simp
  then show ?thesis
    by (simp add: hour_start_def)
qed

lemma hour_start_gt: "t < hour_start c t + 3600000"
proof -
  have "t + c < (t + c) div 3600000 * 3600000 + 3600000"
    using div_mult_mod_eq [of "t + c" 3600000] pos_mod_bound [of 3600000 "t + c"]
    by linarith
  then show ?thesis
    by (simp add: hour_start_def)
qed

lemma hour_start_aligned: "(hour_start c t + c) mod 3600000 = 0"
  by (simp add: hour_start_def)

lemma hour_start_shift: "hour_start c (t + k * 3600000) = hour_start c t + k * 3600000"
proof -
  have "(t + k * 3600000 + c) div 3600000 = (t + c) div 3600000 + k"
    by (simp add: add.commute add.left_commute)
  then show ?thesis
    by (simp add: hour_start_def algebra_simps)
qed

lemma div_hours_unique:
  assumes "q * 3600000 \<le> (x::int)" and "x < q * 3600000 + 3600000"
  shows "x div 3600000 = q"
proof (rule int_div_pos_eq)
  show "x = 3600000 * q + (x - q * 3600000)" by simp
  show "0 \<le> x - q * 3600000" using assms(1) by simp
  show "x - q * 3600000 < 3600000" using assms(2) by simp
qed

lemma hour_start_unique:
  assumes "(b + c) mod 3600000 = 0" and "b \<le> t" and "t < b + 3600000"
  shows "hour_start c t = b"
proof -
  from assms(1) have "(3600000 :: int) dvd b + c"
    by (simp only: mod_eq_0_iff_dvd)
  then obtain q where q: "b + c = q * 3600000"
    unfolding dvd_def by (auto simp: mult.commute)
  have "q * 3600000 \<le> t + c"
    using q assms(2) by linarith
  moreover have "t + c < q * 3600000 + 3600000"
    using q assms(3) by linarith
  ultimately have "(t + c) div 3600000 = q"
    by (rule div_hours_unique)
  then have "hour_start c t = q * 3600000 - c"
    by (simp only: hour_start_def)
  with q show ?thesis by linarith
qed

lemma in_hour_iff:
  assumes "(b + c) mod 3600000 = 0"
  shows "(hour_start c t = b) = (b \<le> t \<and> t < b + 3600000)"
  using hour_start_unique [OF assms] hour_start_le [of c t] hour_start_gt [of t c]
  by auto

lemma mod_add_hours: "((a::int) + k * 3600000) mod 3600000 = a mod 3600000"
  by simp

subsection \<open>Zones that keep their offset over the window\<close>

lemma offset_of_utc_time:
  assumes "constant_offset_over env c lo hi" and "lo - 3600000 \<le> t" and "t \<le> hi"
  shows "LocalTZA env t True = c"
proof -
  from assms(1) have "\<forall>isUTC. lo - 3600000 \<le> (if isUTC then t else t - c)
        \<and> (if isUTC then t else t - c) \<le> hi \<longrightarrow> LocalTZA env t isUTC = c"
    unfolding constant_offset_over_def by (rule spec)
  then have "lo - 3600000 \<le> (if True then t else t - c)
        \<and> (if True then t else t - c) \<le> hi \<longrightarrow> LocalTZA env t True = c"
    by (rule spec)
  with assms(2,3) show ?thesis by simp
qed

lemma offset_of_local_time:
  assumes "constant_offset_over env c lo hi" and "lo - 3600000 \<le> t - c" and "t - c \<le> hi"
  shows "LocalTZA env t False = c"
proof -
  from assms(1) have "\<forall>isUTC. lo - 3600000 \<le> (if isUTC then t else t - c)
        \<and> (if isUTC then t else t - c) \<le> hi \<longrightarrow> LocalTZA env t isUTC = c"
    unfolding constant_offset_over_def by (rule spec)
  then have "lo - 3600000 \<le> (if False then t else t - c)
        \<and> (if False then t else t - c) \<le> hi \<longrightarrow> LocalTZA env t False = c"
    by (rule spec)
  with assms(2,3) show ?thesis by simp
qed

lemma local_hour_in_hour:
  assumes "constant_offset_over env c lo hi"
    and "(b + c) mod 3600000 = 0" and "lo - 3600000 \<le> b"
    and "b \<le> t" and "t < b + 3600000" and "t \<le> hi"
  shows "local_hour env t = b"
proof -
  have u: "LocalTZA env t True = c"
    using assms(3,4,6) by (intro offset_of_utc_time [OF assms(1)]) simp_all
  have "hour_start c t = b"
    by (rule hour_start_unique [OF assms(2,4,5)])
  then have f: "(t + c) div 3600000 * 3600000 = b + c"
    by (simp add: hour_start_def)
  have l: "LocalTZA env (b + c) False = c"
    using assms(3,4,6) by (intro offset_of_local_time [OF assms(1)]) simp_all
  show ?thesis
    by (simp only: local_hour_def LocalTime_def UTC_def u f l add_diff_cancel_right')
qed

lemma local_hour_over:
  assumes "constant_offset_over env c lo hi" and "lo \<le> t" and "t \<le> hi"
  shows "local_hour env t = hour_start c t"
proof (rule local_hour_in_hour [OF assms(1)])
  show "(hour_start c t + c) mod 3600000 = 0" by (rule hour_start_aligned)
  show "lo - 3600000 \<le> hour_start c t"
    using hour_start_gt [of t c] assms(2) by linarith
  show "hour_start c t \<le> t" by (rule hour_start_le)
  show "t < hour_start c t + 3600000" by (rule hour_start_gt)
  show "t \<le> hi" by (rule assms(3))
qed

lemma chart_point_start:
  assumes "constant_offset_over env c (now - h * 3600000) now" and "0 \<le> i" and "i < h"
  shows "instant (time (chart_point env now h m i)) =
           hour_start c (now - h * 3600000) + i * 3600000"
proof -
  have eq: "now - (h - i) * 3600000 = (now - h * 3600000) + i * 3600000"
    by (simp add: algebra_simps)
  have "now - h * 3600000 \<le> now - (h - i) * 3600000"
    using assms(2) by (simp add: eq)
  moreover have "now - (h - i) * 3600000 \<le> now"
    using assms(3) by simp
  ultimately have "local_hour env (now - (h - i) * 3600000) =
                     hour_start c (now - (h - i) * 3600000)"
    by (rule local_hour_over [OF assms(1)])
  also have "\<dots> = hour_start c (now - h * 3600000) + i * 3600000"
    by (simp only: eq hour_start_shift)
  finally show ?thesis
    by (simp only: time_chart_point iso_string.sel)
qed

lemma nth_bucket_starts:
  assumes "constant_offset_over env c (now - h * 3600000) now" and "n < nat h"
  shows "bucket_starts (chartData env now h m) ! n =
           hour_start c (now - h * 3600000) + int n * 3600000"
proof -
  have "0 \<le> int n" and "int n < h" using assms(2) by simp_all
  from chart_point_start [OF assms(1) this] assms(2)
  show ?thesis
    by (simp add: bucket_starts_def nth_chartData length_chartData)
qed

lemma length_bucket_starts: "length (bucket_starts (chartData env now h m)) = nat h"
  by (simp add: bucket_starts_def length_chartData)

lemma start_of_point:
  assumes "constant_offset_over env c (now - h * 3600000) now"
    and "b \<in> set (bucket_starts (chartData env now h m))"
  shows "\<exists>n < nat h. b = hour_start c (now - h * 3600000) + int n * 3600000"
proof -
  from assms(2) obtain n where n: "n < length (bucket_starts (chartData env now h m))"
      and b: "b = bucket_starts (chartData env now h m) ! n"
    by (auto simp: in_set_conv_nth)
  from n have "n < nat h" by (simp add: length_bucket_starts)
  with b nth_bucket_starts [OF assms(1) this] show ?thesis by blast
qed

lemma start_aligned:
  assumes "constant_offset_over env c (now - h * 3600000) now"
    and "b \<in> set (bucket_starts (chartData env now h m))"
  shows "(b + c) mod 3600000 = 0"
proof -
  from start_of_point [OF assms] obtain n
    where "b = hour_start c (now - h * 3600000) + int n * 3600000" by blast
  then have "b + c = (hour_start c (now - h * 3600000) + c) + int n * 3600000"
    by simp
  then have "(b + c) mod 3600000 = (hour_start c (now - h * 3600000) + c) mod 3600000"
    by (simp only: mod_add_hours)
  then show ?thesis
    by (simp only: hour_start_aligned)
qed

lemma start_bounds:
  assumes "constant_offset_over env c (now - h * 3600000) now"
    and "b \<in> set (bucket_starts (chartData env now h m))"
  shows "now - h * 3600000 - 3600000 < b" and "b + 3600000 \<le> now"
proof -
  let ?s = "hour_start c (now - h * 3600000)"
  from start_of_point [OF assms] obtain n
    where n: "n < nat h" and b: "b = ?s + int n * 3600000" by blast
  have "now - h * 3600000 < ?s + 3600000"
    by (rule hour_start_gt)
  then show "now - h * 3600000 - 3600000 < b"
    using b by simp
  have "int n + 1 \<le> h" using n by simp
  then have "(int n + 1) * 3600000 \<le> h * 3600000" by simp
  moreover have "?s \<le> now - h * 3600000" by (rule hour_start_le)
  ultimately show "b + 3600000 \<le> now"
    using b by (simp add: algebra_simps)
qed

lemma bucket_starts_ascending:
  assumes "constant_offset_over env c (now - h * 3600000) now"
  shows "sorted_wrt (<) (bucket_starts (chartData env now h m))"
  unfolding sorted_wrt_iff_nth_less
proof (intro allI impI)
  fix i j assume ij: "i < j" and j: "j < length (bucket_starts (chartData env now h m))"
  then have "j < nat h" and "i < nat h"
    by (simp_all add: length_bucket_starts)
  then show "bucket_starts (chartData env now h m) ! i < bucket_starts (chartData env now h m) ! j"
    using ij by (simp add: nth_bucket_starts [OF assms])
qed

lemma record_in_request:
  assumes "within_request env now h rs" and "r \<in> set rs"
  shows "\<exists>t. Date_parse env (consumed_at r) = Some t \<and> now - h * 3600000 \<le> t \<and> t \<le> now"
  using assms by (auto simp: within_request_def list_all_iff split: option.splits)

lemma bucket_records_by_hour:
  assumes "constant_offset_over env c (now - h * 3600000) now"
    and "within_request env now h rs"
    and "b \<in> set (bucket_starts (chartData env now h m))"
  shows "bucket_records env (ISO b) rs = hour_records env b rs"
  unfolding bucket_records_def hour_records_def
proof (rule filter_cong [OF refl])
  fix r assume "r \<in> set rs"
  from record_in_request [OF assms(2) this] obtain t
    where t: "Date_parse env (consumed_at r) = Some t"
      and lo: "now - h * 3600000 \<le> t" and hi: "t \<le> now" by blast
  have "local_hour env t = hour_start c t"
    by (rule local_hour_over [OF assms(1) lo hi])
  moreover have "(hour_start c t = b) = (b \<le> t \<and> t < b + 3600000)"
    by (rule in_hour_iff [OF start_aligned [OF assms(1,3)]])
  ultimately show "(map_option (local_hour env) (Date_parse env (consumed_at r))
                      = Some (instant (ISO b)))
                 = (case Date_parse env (consumed_at r) of
                      None \<Rightarrow> False
                    | Some t \<Rightarrow> b \<le> t \<and> t < b + 3600000)"
    by (simp add: t)
qed

lemma key_in_request:
  assumes "constant_offset_over env c (now - h * 3600000) now"
    and "now - h * 3600000 \<le> t" and "t \<le> now"
  shows "hourKey env (Some t) = Inr (ISO (hour_start c t))"
  by (simp only: hourKey_Some local_hour_over [OF assms])

subsection \<open>Sums and counts of the buckets\<close>

lemma point_start_in_starts:
  "p \<in> set pts \<Longrightarrow> instant (time p) \<in> set (bucket_starts pts)"
  by (simp add: bucket_starts_def)

lemma iso_instant: "ISO (instant k) = k"
  by (cases k) simp

lemma point_by_hour:
  assumes "forEach_record env rs Map.empty = Inr m"
    and "constant_offset_over env c (now - h * 3600000) now"
    and "within_request env now h rs"
    and "p \<in> set (chartData env now h m)"
  shows "quota_consumed p =
           number_sum (map (\<lambda>r. parseFloat (quota_consumed_str r))
                           (hour_records env (instant (time p)) rs))"
    and "count p = length (hour_records env (instant (time p)) rs)"
proof -
  have "bucket_records env (ISO (instant (time p))) rs = hour_records env (instant (time p)) rs"
    by (rule bucket_records_by_hour [OF assms(2,3) point_start_in_starts [OF assms(4)]])
  then have b: "bucket_records env (time p) rs = hour_records env (instant (time p)) rs"
    by (simp only: iso_instant)
  show "quota_consumed p =
           number_sum (map (\<lambda>r. parseFloat (quota_consumed_str r))
                           (hour_records env (instant (time p)) rs))"
    using point_quota [OF assms(1,4)] by (simp only: b)
  show "count p = length (hour_records env (instant (time p)) rs)"
    using point_count [OF assms(1,4)] by (simp only: b)
qed

lemma hours_disjoint:
  assumes "constant_offset_over env c (now - h * 3600000) now"
    and "i < nat h" and "j < nat h" and "i \<noteq> j"
  shows "set (hour_records env (bucket_starts (chartData env now h m) ! i) rs)
           \<inter> set (hour_records env (bucket_starts (chartData env now h m) ! j) rs) = {}"
proof -
  let ?s = "hour_start c (now - h * 3600000)"
  have "\<not> (?s + int i * 3600000 \<le> t \<and> t < ?s + int i * 3600000 + 3600000
            \<and> ?s + int j * 3600000 \<le> t \<and> t < ?s + int j * 3600000 + 3600000)" for t
  proof (cases "i < j")
    case True
    then have "int i + 1 \<le> int j" by simp
    then have "(int i + 1) * 3600000 \<le> int j * 3600000" by (simp only: mult_right_mono)
    then show ?thesis by (simp add: algebra_simps)
  next
    case False
    with assms(4) have "int j + 1 \<le> int i" by simp
    then have "(int j + 1) * 3600000 \<le> int i * 3600000" by (simp only: mult_right_mono)
    then show ?thesis by (simp add: algebra_simps)
  qed
  then show ?thesis
    by (auto simp: hour_records_def nth_bucket_starts [OF assms(1)] assms(2,3)
             split: option.splits)
qed

text \<open>
  Claim C2, as stated: each fetched event is assigned to the bucket obtained by cutting
  its \<open>consumed_at\<close> down to the hour, and the sum of an emitted bucket is the sum of the
  amounts of its events.  Two inputs show what fails.  On the host in Europe/Berlin, at
  03:30 UTC on 27 October 2024 with the 24-hour window, the request is answered with a
  record consumed at 00:10 UTC and one consumed at 01:10 UTC, both in the requested range.
  The point of index 22 has the key 00:00 UTC (1729987200000) and the count 2, though
  one record only was consumed in the hour from 00:00 UTC: the record of 01:10 UTC is
  counted in a bucket that does not hold its instant, and the point of index 21 counts
  the same two records once more.  On the host in UTC the sum of the amounts 0.1 and 0.2
  of one bucket is not their sum \<open>3 / 10\<close>.
\<close>

theorem bucket_by_floor_counterexample:
  "answered berlin_host (\<lambda>q. Inr clock_change_response) 1729999800000 initial_state 24
       clock_change_response
   \<and> within_request berlin_host 1729999800000 24 clock_change_response
   \<and> time (series berlin_host (\<lambda>q. Inr clock_change_response) 1729999800000 initial_state ! 22)
       = ISO 1729987200000
   \<and> count (series berlin_host (\<lambda>q. Inr clock_change_response) 1729999800000 initial_state ! 22)
       = 2
   \<and> length (hour_records berlin_host 1729987200000 clock_change_response) = 1
   \<and> time (series berlin_host (\<lambda>q. Inr clock_change_response) 1729999800000 initial_state ! 21)
       = ISO 1729987200000
   \<and> count (series berlin_host (\<lambda>q. Inr clock_change_response) 1729999800000 initial_state ! 21)
       = 2
   \<and> map amount drift_response = [1 / 10, 2 / 10]
   \<and> hour_records utc_host 1704103200000 drift_response = drift_response
   \<and> time (series utc_host (\<lambda>q. Inr drift_response) 1704108600000 initial_state ! 23)
       = ISO 1704103200000
   \<and> quota_consumed (series utc_host (\<lambda>q. Inr drift_response) 1704108600000 initial_state ! 23)
       \<noteq> Finite (1 / 10 + 2 / 10)"
  by code_simp

text \<open>
  Claim C2, as amended.  Let a run of \<open>loadData\<close> select \<open>h\<close> hours and be answered with
  records \<open>rs\<close> that were all consumed in the requested range, on a host whose zone keeps
  the offset \<open>c\<close> over the window (from one hour before the start of the requested range
  to \<open>now\<close>).  Every point \<open>p\<close> of the series stands for the hour that starts at the
  instant of \<open>time p\<close>, a top of the hour of the local clock: \<open>count p\<close> is the number of
  the records whose \<open>consumed_at\<close> lies in that hour, those whose \<open>consumed_at\<close> cut down to
  the hour is the start of the bucket, and \<open>quota_consumed p\<close> is the sum of \<open>parseFloat\<close>
  of their \<open>quota_consumed\<close> fields, formed as numbers in the order of arrival.  The hours
  of two points of the series share no record, and the key under which the loop adds a
  record is its \<open>consumed_at\<close> cut down to the hour.
\<close>

theorem hourly_bucket_sum_and_count:
  assumes "answered env api now st h rs"
    and "within_request env now h rs"
    and "constant_offset_over env c (now - h * 3600000) now"
  shows "(\<forall>p \<in> set (series env api now st).
            (instant (time p) + c) mod 3600000 = 0
          \<and> hour_records env (instant (time p)) rs =
              filter (\<lambda>r. map_option (hour_start c) (Date_parse env (consumed_at r))
                             = Some (instant (time p))) rs
          \<and> quota_consumed p =
              number_sum (map (\<lambda>r. parseFloat (quota_consumed_str r))
                              (hour_records env (instant (time p)) rs))
          \<and> count p = length (hour_records env (instant (time p)) rs))
       \<and> (\<forall>i j. i < length (series env api now st) \<and> j < length (series env api now st)
              \<and> i \<noteq> j \<longrightarrow>
              set (hour_records env (instant (time (series env api now st ! i))) rs)
                \<inter> set (hour_records env (instant (time (series env api now st ! j))) rs) = {})
       \<and> (\<forall>r \<in> set rs. \<forall>t. Date_parse env (consumed_at r) = Some t \<longrightarrow>
              hourKey env (Date_parse env (consumed_at r)) = Inr (ISO (hour_start c t)))"
proof -
  from answered_series [OF assms(1)] obtain m
    where m: "forEach_record env rs Map.empty = Inr m"
      and s: "series env api now st = chartData env now h m" by blast
  have points: "\<forall>p \<in> set (series env api now st).
            (instant (time p) + c) mod 3600000 = 0
          \<and> hour_records env (instant (time p)) rs =
              filter (\<lambda>r. map_option (hour_start c) (Date_parse env (consumed_at r))
                             = Some (instant (time p))) rs
          \<and> quota_consumed p =
              number_sum (map (\<lambda>r. parseFloat (quota_consumed_str r))
                              (hour_records env (instant (time p)) rs))
          \<and> count p = length (hour_records env (instant (time p)) rs)"
  proof
    fix p assume "p \<in> set (series env api now st)"
    then have pm: "p \<in> set (chartData env now h m)" by (simp only: s)
    have al: "(instant (time p) + c) mod 3600000 = 0"
      by (rule start_aligned [OF assms(3) point_start_in_starts [OF pm]])
    have fl: "hour_records env (instant (time p)) rs =
              filter (\<lambda>r. map_option (hour_start c) (Date_parse env (consumed_at r))
                             = Some (instant (time p))) rs"
      unfolding hour_records_def
      by (rule filter_cong [OF refl]) (simp add: in_hour_iff [OF al] split: option.split)
    from al fl point_by_hour [OF m assms(3,2) pm]
    show "(instant (time p) + c) mod 3600000 = 0
          \<and> hour_records env (instant (time p)) rs =
              filter (\<lambda>r. map_option (hour_start c) (Date_parse env (consumed_at r))
                             = Some (instant (time p))) rs
          \<and> quota_consumed p =
              number_sum (map (\<lambda>r. parseFloat (quota_consumed_str r))
                              (hour_records env (instant (time p)) rs))
          \<and> count p = length (hour_records env (instant (time p)) rs)"
      by blast
  qed
  have apart: "\<forall>i j. i < length (series env api now st) \<and> j < length (series env api now st)
              \<and> i \<noteq> j \<longrightarrow>
              set (hour_records env (instant (time (series env api now st ! i))) rs)
                \<inter> set (hour_records env (instant (time (series env api now st ! j))) rs) = {}"
  proof (intro allI impI, elim conjE)
    fix i j
    assume i: "i < length (series env api now st)" and j: "j < length (series env api now st)"
      and ij: "i \<noteq> j"
    from i j have i': "i < nat h" and j': "j < nat h"
      by (simp_all add: s length_chartData)
    have "instant (time (chartData env now h m ! i)) = bucket_starts (chartData env now h m) ! i"
         "instant (time (chartData env now h m ! j)) = bucket_starts (chartData env now h m) ! j"
      using i' j' by (simp_all add: bucket_starts_def length_chartData)
    with hours_disjoint [OF assms(3) i' j' ij, of m rs]
    show "set (hour_records env (instant (time (series env api now st ! i))) rs)
            \<inter> set (hour_records env (instant (time (series env api now st ! j))) rs) = {}"
      by (simp only: s)
  qed
  have keys: "\<forall>r \<in> set rs. \<forall>t. Date_parse env (consumed_at r) = Some t \<longrightarrow>
              hourKey env (Date_parse env (consumed_at r)) = Inr (ISO (hour_start c t))"
  proof (intro ballI allI impI)
    fix r t assume r: "r \<in> set rs" and t: "Date_parse env (consumed_at r) = Some t"
    from record_in_request [OF assms(2) r] t
    have "now - h * 3600000 \<le> t" and "t \<le> now" by simp_all
    from key_in_request [OF assms(3) this]
    show "hourKey env (Date_parse env (consumed_at r)) = Inr (ISO (hour_start c t))"
      by (simp only: t)
  qed
  from points apart keys show ?thesis by blast
qed

lemma example_within_request:
  "within_request utc_host 1704108600000 24 example_response"
  by (simp add: within_request_def example_response_def utc_host_def example_timestamps_def)

theorem hourly_bucket_sum_and_count_witness:
  "answered utc_host (\<lambda>q. Inr example_response) 1704108600000 initial_state 24 example_response
   \<and> within_request utc_host 1704108600000 24 example_response
   \<and> constant_offset_over utc_host 0 (1704108600000 - 24 * 3600000) 1704108600000
   \<and> series utc_host (\<lambda>q. Inr example_response) 1704108600000 initial_state ! 23
       = \<lparr>time = ISO 1704103200000, quota_consumed = Finite (13 / 2), count = 2\<rparr>
   \<and> hour_records utc_host 1704103200000 example_response = example_response
   \<and> number_sum (map (\<lambda>r. parseFloat (quota_consumed_str r))
                    (hour_records utc_host 1704103200000 example_response))
       = Finite (13 / 2)
   \<and> length (hour_records utc_host 1704103200000 example_response) = 2"
proof -
  let ?s = "series utc_host (\<lambda>q. Inr example_response) 1704108600000 initial_state"
  let ?p = "\<lparr>time = ISO 1704103200000, quota_consumed = Finite (13 / 2), count = 2\<rparr>"
  have len: "length ?s = 24"
    by code_simp
  have p: "?s ! 23 = ?p"
    by code_simp
  from len have "?s ! 23 \<in> set ?s"
    by simp
  then have mem: "?p \<in> set ?s"
    by (simp only: p)
  have all: "hour_records utc_host 1704103200000 example_response = example_response"
    by code_simp
  from hourly_bucket_sum_and_count
         [OF answered_example example_within_request utc_host_offset,
          THEN conjunct1, THEN bspec, OF mem, THEN conjunct2, THEN conjunct2]
  have "Finite (13 / 2) =
          number_sum (map (\<lambda>r. parseFloat (quota_consumed_str r))
                          (hour_records utc_host 1704103200000 example_response))
        \<and> 2 = length (hour_records utc_host 1704103200000 example_response)"
    by simp
  with answered_example example_within_request utc_host_offset p all show ?thesis
    by simp
qed

subsection \<open>Order of the series\<close>

text \<open>
  Claim C4, as stated: the bucket starts of the series are strictly ascending for every
  window.  It fails on a host whose zone sets the clocks back inside the window: in
  Europe/Berlin at 03:30 UTC on 27 October 2024, the instants 00:30 and 01:30 UTC of the
  24-hour window both read 02:30 local time, the constructor resolves the local hour
  02:00 to the same instant 00:00 UTC (1729987200000) twice, and the series holds that
  bucket start at the indices 21 and 22.
\<close>

theorem series_ascending_counterexample:
  "answered berlin_host (\<lambda>q. Inr []) 1729999800000 initial_state 24 []
   \<and> bucket_starts (series berlin_host (\<lambda>q. Inr []) 1729999800000 initial_state) ! 21
       = 1729987200000
   \<and> bucket_starts (series berlin_host (\<lambda>q. Inr []) 1729999800000 initial_state) ! 22
       = 1729987200000
   \<and> \<not> sorted_wrt (<)
         (bucket_starts (series berlin_host (\<lambda>q. Inr []) 1729999800000 initial_state))"
  by code_simp

text \<open>
  Claim C4, as amended: on a host whose zone keeps its offset from UTC over the window
  (from one hour before the start of the requested range to \<open>now\<close>), for every answer to
  the request, the bucket starts of the series are strictly ascending.
\<close>

theorem series_strictly_ascending:
  assumes "answered env api now st h rs"
    and "constant_offset_over env c (now - h * 3600000) now"
  shows "sorted_wrt (<) (bucket_starts (series env api now st))"
proof -
  from answered_series [OF assms(1)] obtain m
    where "series env api now st = chartData env now h m" by blast
  then show ?thesis
    by (simp add: bucket_starts_ascending [OF assms(2)])
qed

theorem series_strictly_ascending_witness:
  "answered berlin_host (\<lambda>q. Inr example_response) 1704108600000 initial_state 24
     example_response
   \<and> constant_offset_over berlin_host 3600000 (1704108600000 - 24 * 3600000) 1704108600000
   \<and> length (series berlin_host (\<lambda>q. Inr example_response) 1704108600000 initial_state) = 24
   \<and> sorted_wrt (<)
        (bucket_starts (series berlin_host (\<lambda>q. Inr example_response) 1704108600000
                          initial_state))"
proof -
  have n: "length (series berlin_host (\<lambda>q. Inr example_response) 1704108600000 initial_state)
             = 24"
    by code_simp
  from series_strictly_ascending [OF answered_january berlin_host_january]
    answered_january berlin_host_january n
  show ?thesis by simp
qed

subsection \<open>Gap filling\<close>

lemma empty_bucket_zero:
  assumes "forEach_record env rs Map.empty = Inr m"
    and "p \<in> set (chartData env now h m)"
    and "bucket_records env (time p) rs = []"
  shows "quota_consumed p = Finite 0 \<and> count p = 0"
  using point_quota [OF assms(1,2)] point_count [OF assms(1,2)] assms(3)
  by (simp add: number_sum_def)

lemma empty_hour_zero:
  assumes "forEach_record env rs Map.empty = Inr m"
    and "constant_offset_over env c (now - h * 3600000) now"
    and "within_request env now h rs"
    and "p \<in> set (chartData env now h m)"
    and "hour_records env (instant (time p)) rs = []"
  shows "quota_consumed p = Finite 0 \<and> count p = 0"
  using point_by_hour [OF assms(1-4)] assms(5)
  by (simp add: number_sum_def)

lemma next_bucket_start:
  assumes "constant_offset_over env c (now - h * 3600000) now" and "Suc n < nat h"
  shows "bucket_starts (chartData env now h m) ! Suc n =
           bucket_starts (chartData env now h m) ! n + 3600000"
proof -
  from assms(2) have "n < nat h" by simp
  from nth_bucket_starts [OF assms(1) this] nth_bucket_starts [OF assms(1,2)]
  show ?thesis by (simp add: algebra_simps)
qed

text \<open>
  Claim C1, as stated: the buckets of the series cover the whole requested range, from
  \<open>now - h\<close> hours to \<open>now\<close>, without a gap.  Two inputs show what fails.  On a host in
  UTC, at 10:30 on 1 January 2024 with the 24-hour window, the request is answered with a
  record consumed at 10:15, inside the range; the last bucket of the series starts at 09:00,
  the instant 10:15 (1704104100000) lies in no bucket, and every point of the series has
  count 0.  On the host in Europe/Berlin of claim C4 the buckets at the indices 21 and 22
  start at the same instant, so the series is not one bucket per hour.
\<close>

theorem series_coverage_counterexample:
  "answered utc_host (\<lambda>q. Inr [hd example_response]) 1704105000000 initial_state 24
       [hd example_response]
   \<and> Date_parse utc_host (consumed_at (hd example_response)) = Some 1704104100000
   \<and> 1704105000000 - 24 * 3600000 \<le> (1704104100000 :: int)
   \<and> (1704104100000 :: int) < 1704105000000
   \<and> \<not> covered (series utc_host (\<lambda>q. Inr [hd example_response]) 1704105000000 initial_state)
           1704104100000
   \<and> list_all (\<lambda>p. count p = 0)
        (series utc_host (\<lambda>q. Inr [hd example_response]) 1704105000000 initial_state)
   \<and> bucket_starts (series berlin_host (\<lambda>q. Inr []) 1729999800000 initial_state) ! 22
       \<noteq> bucket_starts (series berlin_host (\<lambda>q. Inr []) 1729999800000 initial_state) ! 21
           + 3600000"
  by code_simp

text \<open>
  Claim C1, as amended.  On every host, a run that selects \<open>h\<close> hours and is answered
  with records \<open>rs\<close> leaves a series of exactly \<open>h\<close> points (none when \<open>h\<close> is negative).
  A point whose key no record has, has \<open>quota_consumed\<close> 0 and \<open>count\<close> 0, and with no
  record at all every one of the \<open>h\<close> points has these zeros.  Where the zone of the host
  keeps its offset over the window, the buckets are consecutive hours, each starting one
  hour after the one before it, and when the records were all consumed in the requested
  range a point in whose hour no record was consumed has \<open>quota_consumed\<close> 0 and \<open>count\<close>
  0.  Which hours of the range the buckets are is left open.
\<close>

theorem series_gap_filled:
  assumes "answered env api now st h rs"
  shows "length (series env api now st) = nat h
       \<and> (\<forall>p \<in> set (series env api now st).
              bucket_records env (time p) rs = [] \<longrightarrow> quota_consumed p = Finite 0 \<and> count p = 0)
       \<and> (rs = [] \<longrightarrow>
              list_all (\<lambda>p. quota_consumed p = Finite 0 \<and> count p = 0)
                (series env api now st))
       \<and> (\<forall>c. constant_offset_over env c (now - h * 3600000) now \<longrightarrow>
              (\<forall>n. Suc n < nat h \<longrightarrow>
                 bucket_starts (series env api now st) ! Suc n =
                   bucket_starts (series env api now st) ! n + 3600000)
            \<and> (within_request env now h rs \<longrightarrow>
                 (\<forall>p \<in> set (series env api now st).
                    hour_records env (instant (time p)) rs = [] \<longrightarrow>
                    quota_consumed p = Finite 0 \<and> count p = 0)))"
proof -
  from answered_series [OF assms] obtain m
    where m: "forEach_record env rs Map.empty = Inr m"
      and s: "series env api now st = chartData env now h m" by blast
  have len: "length (series env api now st) = nat h"
    by (simp add: s length_chartData)
  have fill: "\<forall>p \<in> set (series env api now st).
              bucket_records env (time p) rs = [] \<longrightarrow> quota_consumed p = Finite 0 \<and> count p = 0"
    using empty_bucket_zero [OF m] by (simp add: s)
  have none: "rs = [] \<longrightarrow>
              list_all (\<lambda>p. quota_consumed p = Finite 0 \<and> count p = 0)
                (series env api now st)"
  proof
    assume "rs = []"
    then have "bucket_records env k rs = []" for k
      by (simp add: bucket_records_def)
    with fill show "list_all (\<lambda>p. quota_consumed p = Finite 0 \<and> count p = 0)
                      (series env api now st)"
      by (simp add: list_all_iff)
  qed
  have step: "bucket_starts (series env api now st) ! Suc n =
                bucket_starts (series env api now st) ! n + 3600000"
    if "constant_offset_over env c (now - h * 3600000) now" and "Suc n < nat h" for c n
    using that by (simp only: s next_bucket_start)
  have hour: "quota_consumed p = Finite 0 \<and> count p = 0"
    if c: "constant_offset_over env c (now - h * 3600000) now"
      and w: "within_request env now h rs"
      and p: "p \<in> set (series env api now st)"
      and e: "hour_records env (instant (time p)) rs = []" for c p
  proof -
    from p have pm: "p \<in> set (chartData env now h m)" by (simp only: s)
    from empty_hour_zero [OF m c w pm e] show ?thesis .
  qed
  have zone: "\<forall>c. constant_offset_over env c (now - h * 3600000) now \<longrightarrow>
              (\<forall>n. Suc n < nat h \<longrightarrow>
                 bucket_starts (series env api now st) ! Suc n =
                   bucket_starts (series env api now st) ! n + 3600000)
            \<and> (within_request env now h rs \<longrightarrow>
                 (\<forall>p \<in> set (series env api now st).
                    hour_records env (instant (time p)) rs = [] \<longrightarrow>
                    quota_consumed p = Finite 0 \<and> count p = 0))"
    using step hour by blast
  from len fill none zone show ?thesis by blast
qed

lemma answered_january_empty:
  "answered berlin_host (\<lambda>q. Inr []) 1704108600000 initial_state 24 []"
  by (simp add: answered_def initial_state_def parseInt_24)

lemma january_within_request:
  "within_request berlin_host 1704108600000 24 example_response"
  by (simp add: within_request_def example_response_def berlin_host_def example_timestamps_def)

theorem series_gap_filled_witness:
  "answered berlin_host (\<lambda>q. Inr []) 1704108600000 initial_state 24 []
   \<and> constant_offset_over berlin_host 3600000 (1704108600000 - 24 * 3600000) 1704108600000
   \<and> length (series berlin_host (\<lambda>q. Inr []) 1704108600000 initial_state) = 24
   \<and> list_all (\<lambda>p. quota_consumed p = Finite 0 \<and> count p = 0)
        (series berlin_host (\<lambda>q. Inr []) 1704108600000 initial_state)
   \<and> bucket_starts (series berlin_host (\<lambda>q. Inr []) 1704108600000 initial_state) ! 1
       = bucket_starts (series berlin_host (\<lambda>q. Inr []) 1704108600000 initial_state) ! 0
           + 3600000
   \<and> answered berlin_host (\<lambda>q. Inr example_response) 1704108600000 initial_state 24
        example_response
   \<and> within_request berlin_host 1704108600000 24 example_response
   \<and> time (series berlin_host (\<lambda>q. Inr example_response) 1704108600000 initial_state ! 22)
       = ISO 1704099600000
   \<and> hour_records berlin_host 1704099600000 example_response = []
   \<and> quota_consumed (series berlin_host (\<lambda>q. Inr example_response) 1704108600000
                        initial_state ! 22) = Finite 0
   \<and> count (series berlin_host (\<lambda>q. Inr example_response) 1704108600000
                initial_state ! 22) = 0"
proof -
  let ?s = "series berlin_host (\<lambda>q. Inr []) 1704108600000 initial_state"
  let ?r = "series berlin_host (\<lambda>q. Inr example_response) 1704108600000 initial_state"
  note t = series_gap_filled [OF answered_january_empty]
  note u = series_gap_filled [OF answered_january]
  have a: "length ?s = nat 24"
    using t by blast
  have b: "list_all (\<lambda>p. quota_consumed p = Finite 0 \<and> count p = 0) ?s"
    using t by blast
  have "\<forall>n. Suc n < nat 24 \<longrightarrow> bucket_starts ?s ! Suc n = bucket_starts ?s ! n + 3600000"
    using t berlin_host_january by blast
  then have c: "bucket_starts ?s ! Suc 0 = bucket_starts ?s ! 0 + 3600000"
    by simp
  have "length ?r = nat 24"
    using u by blast
  then have mem: "?r ! 22 \<in> set ?r"
    by simp
  have k: "time (?r ! 22) = ISO 1704099600000"
    by code_simp
  have e: "hour_records berlin_host 1704099600000 example_response = []"
    by code_simp
  then have "hour_records berlin_host (instant (time (?r ! 22))) example_response = []"
    by (simp only: k iso_string.sel)
  with u berlin_host_january january_within_request mem
  have z: "quota_consumed (?r ! 22) = Finite 0 \<and> count (?r ! 22) = 0"
    by blast
  from a b c answered_january_empty berlin_host_january answered_january
    january_within_request k e z
  show ?thesis
    by simp
qed

subsection \<open>Bucket edges\<close>

lemma start_in_chartData:
  assumes "constant_offset_over env c (now - h * 3600000) now" and "0 \<le> k" and "k < h"
  shows "hour_start c (now - h * 3600000) + k * 3600000
           \<in> set (bucket_starts (chartData env now h m))"
proof -
  have n: "nat k < nat h" using assms(2,3) by simp
  then have "nat k < length (bucket_starts (chartData env now h m))"
    by (simp only: length_bucket_starts)
  then have "bucket_starts (chartData env now h m) ! nat k
               \<in> set (bucket_starts (chartData env now h m))"
    by (rule nth_mem)
  moreover have "int (nat k) = k" using assms(2) by simp
  ultimately show ?thesis
    by (simp add: nth_bucket_starts [OF assms(1) n])
qed

lemma edge_aligned:
  assumes "constant_offset_over env c (now - h * 3600000) now"
    and "e \<in> bucket_edges (chartData env now h m)"
  shows "(e + c) mod 3600000 = 0"
proof -
  from assms(2) consider
      "e \<in> set (bucket_starts (chartData env now h m))"
    | b where "b \<in> set (bucket_starts (chartData env now h m))" "e = b + 3600000"
    by (auto simp: bucket_edges_def)
  then show ?thesis
  proof cases
    case 1
    then show ?thesis by (rule start_aligned [OF assms(1)])
  next
    case 2
    from start_aligned [OF assms(1) 2(1)] have "(b + c) mod 3600000 = 0" .
    moreover have "e + c = (b + c) + 1 * 3600000" using 2(2) by simp
    ultimately show ?thesis by (simp only: mod_add_hours)
  qed
qed

lemma aligned_edge_in_range:
  assumes "constant_offset_over env c (now - h * 3600000) now"
    and "(e + c) mod 3600000 = 0"
    and "now - h * 3600000 \<le> e" and "e < now"
  shows "e \<in> bucket_edges (chartData env now h m)"
proof -
  let ?s = "hour_start c (now - h * 3600000)"
  have s_le: "?s \<le> now - h * 3600000"
    by (rule hour_start_le)
  have s_al: "(?s + c) mod 3600000 = 0"
    by (rule hour_start_aligned)
  have "hour_start c ((now - h * 3600000) + h * 3600000) = ?s + h * 3600000"
    by (rule hour_start_shift)
  then have top: "hour_start c now = ?s + h * 3600000"
    by simp
  have now_lt: "now < hour_start c now + 3600000"
    by (rule hour_start_gt)
  have "(e + c) mod 3600000 = (?s + c) mod 3600000"
    by (simp only: assms(2) s_al)
  then have "(3600000 :: int) dvd (e + c) - (?s + c)"
    by (simp only: mod_eq_dvd_iff)
  moreover have "(e + c) - (?s + c) = e - ?s"
    by simp
  ultimately have "(3600000 :: int) dvd e - ?s"
    by (simp only:)
  then obtain k where k: "e - ?s = 3600000 * k"
    unfolding dvd_def by blast
  then have e: "e = ?s + k * 3600000" by simp
  have k0: "0 \<le> k" using k s_le assms(3) by simp
  have "k * 3600000 < h * 3600000 + 3600000"
    using e assms(4) now_lt top by linarith
  then have kh: "k \<le> h" by simp
  have h0: "0 < h" using assms(3,4) by simp
  show ?thesis
  proof (cases "k < h")
    case True
    from start_in_chartData [OF assms(1) k0 True]
    show ?thesis by (simp add: bucket_edges_def e)
  next
    case False
    with kh have kh': "k = h" by simp
    have "0 \<le> h - 1" "h - 1 < h" using h0 by simp_all
    from start_in_chartData [OF assms(1) this]
    have "?s + (h - 1) * 3600000 \<in> set (bucket_starts (chartData env now h m))" .
    moreover have "e = (?s + (h - 1) * 3600000) + 3600000"
      using e kh' by (simp add: algebra_simps)
    ultimately show ?thesis
      unfolding bucket_edges_def by blast
  qed
qed

lemma edges_shared:
  assumes "constant_offset_over env c (now - h * 3600000) now"
    and "constant_offset_over env c (now' - h' * 3600000) now'"
    and "e \<in> bucket_edges (chartData env now h m)"
    and "now' - h' * 3600000 \<le> e" and "e < now'"
  shows "e \<in> bucket_edges (chartData env now' h' m')"
  by (rule aligned_edge_in_range [OF assms(2) edge_aligned [OF assms(1,3)] assms(4,5)])

lemma length_filter_split:
  "\<forall>x \<in> set xs. P x \<noteq> Q x \<Longrightarrow> length (filter P xs) + length (filter Q xs) = length xs"
  by (induction xs) auto

lemma key_of_hour_record:
  assumes c: "constant_offset_over env c (now - h * 3600000) now"
    and n: "n < nat h"
    and r: "r \<in> set (hour_records env (bucket_starts (chartData env now h m) ! n) rs)"
  shows "map_option (local_hour env) (Date_parse env (consumed_at r))
           = Some (bucket_starts (chartData env now h m) ! n)"
proof -
  let ?b = "bucket_starts (chartData env now h m) ! n"
  from n have "n < length (bucket_starts (chartData env now h m))"
    by (simp only: length_bucket_starts)
  then have b: "?b \<in> set (bucket_starts (chartData env now h m))"
    by (rule nth_mem)
  from r obtain t where t: "Date_parse env (consumed_at r) = Some t"
      and lo: "?b \<le> t" and hi: "t < ?b + 3600000"
    by (auto simp: hour_records_def split: option.splits)
  have "now - h * 3600000 - 3600000 \<le> ?b"
    using start_bounds(1) [OF c b] by simp
  moreover have "t \<le> now"
    using start_bounds(2) [OF c b] hi by simp
  ultimately have "local_hour env t = ?b"
    using lo hi by (intro local_hour_in_hour [OF c start_aligned [OF c b]])
  then show ?thesis by (simp add: t)
qed

lemma two_hours_only:
  assumes c: "constant_offset_over env c (now - h * 3600000) now"
    and m: "forEach_record env rs Map.empty = Inr m"
    and i: "i < nat h" and j: "j < nat h" and ij: "i \<noteq> j"
    and only: "\<forall>r \<in> set rs.
        r \<in> set (hour_records env (bucket_starts (chartData env now h m) ! i) rs)
      \<or> r \<in> set (hour_records env (bucket_starts (chartData env now h m) ! j) rs)"
  shows "\<forall>n < nat h. n \<noteq> i \<and> n \<noteq> j \<longrightarrow>
            quota_consumed (chartData env now h m ! n) = Finite 0
          \<and> count (chartData env now h m ! n) = 0"
    and "count (chartData env now h m ! i) + count (chartData env now h m ! j) = length rs"
proof -
  let ?pts = "chartData env now h m"
  let ?s = "hour_start c (now - h * 3600000)"
  have start: "instant (time (?pts ! n)) = ?s + int n * 3600000" if "n < nat h" for n
    using nth_bucket_starts [OF c that, of m] that
    by (simp add: bucket_starts_def length_chartData)
  have key: "map_option (local_hour env) (Date_parse env (consumed_at r)) = Some (?s + int i * 3600000)
           \<or> map_option (local_hour env) (Date_parse env (consumed_at r)) = Some (?s + int j * 3600000)"
    if "r \<in> set rs" for r
  proof -
    from only that consider
        "r \<in> set (hour_records env (bucket_starts ?pts ! i) rs)"
      | "r \<in> set (hour_records env (bucket_starts ?pts ! j) rs)"
      by blast
    then show ?thesis
    proof cases
      case 1
      from key_of_hour_record [OF c i 1] show ?thesis
        by (simp only: nth_bucket_starts [OF c i]) simp
    next
      case 2
      from key_of_hour_record [OF c j 2] show ?thesis
        by (simp only: nth_bucket_starts [OF c j]) simp
    qed
  qed
  show "\<forall>n < nat h. n \<noteq> i \<and> n \<noteq> j \<longrightarrow>
            quota_consumed (?pts ! n) = Finite 0 \<and> count (?pts ! n) = 0"
  proof (intro allI impI)
    fix n assume n: "n < nat h" and ne: "n \<noteq> i \<and> n \<noteq> j"
    have "bucket_records env (time (?pts ! n)) rs = []"
      unfolding bucket_records_def filter_empty_conv
    proof
      fix r assume "r \<in> set rs"
      from key [OF this] ne
      show "\<not> map_option (local_hour env) (Date_parse env (consumed_at r))
                = Some (instant (time (?pts ! n)))"
        by (auto simp: start [OF n])
    qed
    moreover have "?pts ! n \<in> set ?pts"
      using n by (simp add: length_chartData)
    ultimately show "quota_consumed (?pts ! n) = Finite 0 \<and> count (?pts ! n) = 0"
      using empty_bucket_zero [OF m] by blast
  qed
  have pi: "?pts ! i \<in> set ?pts" and pj: "?pts ! j \<in> set ?pts"
    using i j by (simp_all add: length_chartData)
  have "\<forall>r \<in> set rs.
          (map_option (local_hour env) (Date_parse env (consumed_at r))
             = Some (instant (time (?pts ! i))))
        \<noteq> (map_option (local_hour env) (Date_parse env (consumed_at r))
             = Some (instant (time (?pts ! j))))"
  proof
    fix r assume "r \<in> set rs"
    from key [OF this] ij
    show "(map_option (local_hour env) (Date_parse env (consumed_at r))
             = Some (instant (time (?pts ! i))))
        \<noteq> (map_option (local_hour env) (Date_parse env (consumed_at r))
             = Some (instant (time (?pts ! j))))"
      by (auto simp: start [OF i] start [OF j])
  qed
  from length_filter_split [OF this]
  have "length (bucket_records env (time (?pts ! i)) rs)
          + length (bucket_records env (time (?pts ! j)) rs) = length rs"
    by (simp add: bucket_records_def)
  then show "count (?pts ! i) + count (?pts ! j) = length rs"
    by (simp add: point_count [OF m pi] point_count [OF m pj])
qed

text \<open>
  Claim C3, as stated, has the result of a window whose records all lie in two of its
  buckets show values other than zero at these two indices only, on every host.  On the
  host in Europe/Berlin, at 22:30 UTC on 27 October 2024, the 24-hour window is answered
  with one record consumed at 00:10 UTC and one at 03:10 UTC; the first lies in the hour
  that starts where the bucket of index 2 does, the second in the hour of the bucket of
  index 5, and the point of index 3, whose key is that of index 2, has count 1 and
  quota_consumed 5.
\<close>

theorem bucket_indices_counterexample:
  "answered berlin_host (\<lambda>q. Inr berlin_response) 1730068200000 initial_state 24
       berlin_response
   \<and> within_request berlin_host 1730068200000 24 berlin_response
   \<and> length (series berlin_host (\<lambda>q. Inr berlin_response) 1730068200000 initial_state) = 24
   \<and> list_all
        (\<lambda>r. r \<in> set (hour_records berlin_host
                          (bucket_starts (series berlin_host (\<lambda>q. Inr berlin_response)
                                            1730068200000 initial_state) ! 2)
                          berlin_response)
            \<or> r \<in> set (hour_records berlin_host
                          (bucket_starts (series berlin_host (\<lambda>q. Inr berlin_response)
                                            1730068200000 initial_state) ! 5)
                          berlin_response))
        berlin_response
   \<and> count (series berlin_host (\<lambda>q. Inr berlin_response) 1730068200000 initial_state ! 3) = 1
   \<and> quota_consumed (series berlin_host (\<lambda>q. Inr berlin_response) 1730068200000
                        initial_state ! 3) = Finite 5"
  by code_simp

text \<open>
  Claim C3, as amended.  Take two answered runs of \<open>loadData\<close> on a host whose zone keeps
  the offset \<open>c\<close> over the window of each (from one hour before the start of its requested
  range to its \<open>now\<close>).  Every bucket of the first series starts at a top of the hour of
  the local clock, an instant \<open>b\<close> with \<open>b + c\<close> a whole number of hours, and the key
  computed for an instant \<open>t\<close> of the requested range is \<open>t\<close> cut down to the hour, which
  depends on \<open>t\<close> alone and not on the window.  Every bucket edge of either series that
  lies in the requested range of the other run is a bucket edge of the other series.
  When each record of the first run was consumed in the hour of the bucket of index \<open>i\<close>
  or in that of index \<open>j\<close>, two indices of the window, the series has as many points as
  the window has hours, those at the other indices have \<open>quota_consumed\<close> 0 and \<open>count\<close>
  0, and the counts at \<open>i\<close> and \<open>j\<close> add up to the number of records.
\<close>

theorem bucket_edges_anchored:
  assumes "answered env api now st h rs" and "answered env api' now' st' h' rs'"
    and "constant_offset_over env c (now - h * 3600000) now"
    and "constant_offset_over env c (now' - h' * 3600000) now'"
  shows "(\<forall>b \<in> set (bucket_starts (series env api now st)). (b + c) mod 3600000 = 0)
       \<and> (\<forall>t. now - h * 3600000 \<le> t \<and> t \<le> now \<longrightarrow>
              hourKey env (Some t) = Inr (ISO (hour_start c t)))
       \<and> (\<forall>e \<in> bucket_edges (series env api now st).
              now' - h' * 3600000 \<le> e \<and> e < now' \<longrightarrow>
              e \<in> bucket_edges (series env api' now' st'))
       \<and> (\<forall>e \<in> bucket_edges (series env api' now' st').
              now - h * 3600000 \<le> e \<and> e < now \<longrightarrow>
              e \<in> bucket_edges (series env api now st))
       \<and> (\<forall>i j. i < nat h \<and> j < nat h \<and> i \<noteq> j
            \<and> (\<forall>r \<in> set rs.
                   r \<in> set (hour_records env (bucket_starts (series env api now st) ! i) rs)
                 \<or> r \<in> set (hour_records env (bucket_starts (series env api now st) ! j) rs))
            \<longrightarrow>
              length (series env api now st) = nat h
            \<and> (\<forall>n < nat h. n \<noteq> i \<and> n \<noteq> j \<longrightarrow>
                   quota_consumed (series env api now st ! n) = Finite 0
                 \<and> count (series env api now st ! n) = 0)
            \<and> count (series env api now st ! i) + count (series env api now st ! j)
                = length rs)"
proof -
  from answered_series [OF assms(1)] obtain m
    where m: "forEach_record env rs Map.empty = Inr m"
      and s: "series env api now st = chartData env now h m" by blast
  from answered_series [OF assms(2)] obtain m'
    where s': "series env api' now' st' = chartData env now' h' m'" by blast
  have aligned: "\<forall>b \<in> set (bucket_starts (series env api now st)). (b + c) mod 3600000 = 0"
    using start_aligned [OF assms(3)] by (simp add: s)
  have pure: "\<forall>t. now - h * 3600000 \<le> t \<and> t \<le> now \<longrightarrow>
              hourKey env (Some t) = Inr (ISO (hour_start c t))"
    using key_in_request [OF assms(3)] by blast
  have overlap: "\<forall>e \<in> bucket_edges (series env api now st).
              now' - h' * 3600000 \<le> e \<and> e < now' \<longrightarrow>
              e \<in> bucket_edges (series env api' now' st')"
    using edges_shared [OF assms(3,4)] by (simp add: s s')
  have overlap': "\<forall>e \<in> bucket_edges (series env api' now' st').
              now - h * 3600000 \<le> e \<and> e < now \<longrightarrow>
              e \<in> bucket_edges (series env api now st)"
    using edges_shared [OF assms(4,3)] by (simp add: s s')
  have two: "length (series env api now st) = nat h
            \<and> (\<forall>n < nat h. n \<noteq> i \<and> n \<noteq> j \<longrightarrow>
                   quota_consumed (series env api now st ! n) = Finite 0
                 \<and> count (series env api now st ! n) = 0)
            \<and> count (series env api now st ! i) + count (series env api now st ! j)
                = length rs"
    if i: "i < nat h" and j: "j < nat h" and ij: "i \<noteq> j"
      and only: "\<forall>r \<in> set rs.
                   r \<in> set (hour_records env (bucket_starts (series env api now st) ! i) rs)
                 \<or> r \<in> set (hour_records env (bucket_starts (series env api now st) ! j) rs)"
    for i j
  proof -
    from only have only': "\<forall>r \<in> set rs.
        r \<in> set (hour_records env (bucket_starts (chartData env now h m) ! i) rs)
      \<or> r \<in> set (hour_records env (bucket_starts (chartData env now h m) ! j) rs)"
      by (simp only: s)
    note t = two_hours_only [OF assms(3) m i j ij only']
    have "length (series env api now st) = nat h"
      by (simp add: s length_chartData)
    moreover have "\<forall>n < nat h. n \<noteq> i \<and> n \<noteq> j \<longrightarrow>
                   quota_consumed (series env api now st ! n) = Finite 0
                 \<and> count (series env api now st ! n) = 0"
      using t(1) by (simp only: s)
    moreover have "count (series env api now st ! i) + count (series env api now st ! j)
                = length rs"
      using t(2) by (simp only: s)
    ultimately show ?thesis by blast
  qed
  from aligned pure overlap overlap' two show ?thesis by blast
qed

lemma answered_two_hours:
  "answered utc_host (\<lambda>q. Inr berlin_response) 1730068200000 initial_state 24 berlin_response"
  by (simp add: answered_def initial_state_def parseInt_24 berlin_response_def utc_host_def
                example_timestamps_def)

lemma answered_day:
  "answered utc_host (\<lambda>q. Inr []) 1729999800000 initial_state 24 []"
  by (simp add: answered_def initial_state_def parseInt_24)

theorem bucket_edges_anchored_witness:
  "answered utc_host (\<lambda>q. Inr berlin_response) 1730068200000 initial_state 24 berlin_response
   \<and> answered utc_host (\<lambda>q. Inr []) 1729999800000 initial_state 24 []
   \<and> constant_offset_over utc_host 0 (1730068200000 - 24 * 3600000) 1730068200000
   \<and> constant_offset_over utc_host 0 (1729999800000 - 24 * 3600000) 1729999800000
   \<and> 1729987200000 \<in> bucket_edges (series utc_host (\<lambda>q. Inr berlin_response) 1730068200000
                                      initial_state)
   \<and> 1729987200000 \<in> bucket_edges (series utc_host (\<lambda>q. Inr []) 1729999800000 initial_state)
   \<and> list_all
        (\<lambda>r. r \<in> set (hour_records utc_host
                          (bucket_starts (series utc_host (\<lambda>q. Inr berlin_response)
                                            1730068200000 initial_state) ! 2)
                          berlin_response)
            \<or> r \<in> set (hour_records utc_host
                          (bucket_starts (series utc_host (\<lambda>q. Inr berlin_response)
                                            1730068200000 initial_state) ! 5)
                          berlin_response))
        berlin_response
   \<and> length (series utc_host (\<lambda>q. Inr berlin_response) 1730068200000 initial_state) = 24
   \<and> count (series utc_host (\<lambda>q. Inr berlin_response) 1730068200000 initial_state ! 3) = 0
   \<and> count (series utc_host (\<lambda>q. Inr berlin_response) 1730068200000 initial_state ! 2)
       + count (series utc_host (\<lambda>q. Inr berlin_response) 1730068200000 initial_state ! 5)
       = 2"
proof -
  let ?one = "series utc_host (\<lambda>q. Inr berlin_response) 1730068200000 initial_state"
  let ?two = "series utc_host (\<lambda>q. Inr []) 1729999800000 initial_state"
  note t = bucket_edges_anchored
             [OF answered_two_hours answered_day utc_host_offset utc_host_offset]
  have e1: "1729987200000 \<in> bucket_edges ?one"
    by code_simp
  have "1729999800000 - 24 * 3600000 \<le> (1729987200000::int) \<and> (1729987200000::int) < 1729999800000"
    by simp
  with t e1 have e2: "1729987200000 \<in> bucket_edges ?two"
    by blast
  have only: "list_all
        (\<lambda>r. r \<in> set (hour_records utc_host (bucket_starts ?one ! 2) berlin_response)
            \<or> r \<in> set (hour_records utc_host (bucket_starts ?one ! 5) berlin_response))
        berlin_response"
    by code_simp
  then have only': "\<forall>r \<in> set berlin_response.
          r \<in> set (hour_records utc_host (bucket_starts ?one ! 2) berlin_response)
        \<or> r \<in> set (hour_records utc_host (bucket_starts ?one ! 5) berlin_response)"
    by (simp only: list_all_iff)
  have "(2::nat) < nat 24 \<and> (5::nat) < nat 24 \<and> (2::nat) \<noteq> 5" by simp
  with t only' have two:
    "length ?one = nat 24
     \<and> (\<forall>n < nat 24. n \<noteq> 2 \<and> n \<noteq> 5 \<longrightarrow>
            quota_consumed (?one ! n) = Finite 0 \<and> count (?one ! n) = 0)
     \<and> count (?one ! 2) + count (?one ! 5) = length berlin_response"
    by blast
  then have "count (?one ! 3) = 0" by simp
  moreover have "length berlin_response = 2"
    by (simp add: berlin_response_def)
  ultimately show ?thesis
    using answered_two_hours answered_day
      utc_host_offset [of "1730068200000 - 24 * 3600000" 1730068200000]
      utc_host_offset [of "1729999800000 - 24 * 3600000" 1729999800000]
      e1 e2 only two by simp
qed

subsection \<open>Exactness of the sums\<close>

lemma parseFloat_decimal:
  "is_decimal (quota_consumed_str r) \<Longrightarrow>
     parseFloat (quota_consumed_str r) = round_double (amount r)"
  by (simp add: is_decimal_def amount_def parseFloat_def split: literal.splits)

lemma map_parseFloat_decimal:
  "list_all (\<lambda>r. is_decimal (quota_consumed_str r)) rs \<Longrightarrow>
     map (\<lambda>r. parseFloat (quota_consumed_str r)) rs = map (\<lambda>r. round_double (amount r)) rs"
  by (induction rs) (simp_all add: parseFloat_decimal)

lemma exact_running_sum:
  "list_all representable xs \<Longrightarrow> list_all representable (running_sums a xs) \<Longrightarrow>
     foldl number_add (Finite a) (map round_double xs) = Finite (a + sum_list xs)"
proof (induction xs arbitrary: a)
  case Nil
  then show ?case by simp
next
  case (Cons x xs)
  from Cons.prems have x: "round_double x = Finite x"
    by (simp add: representable_def)
  from Cons.prems have "list_all representable (running_sums (a + x) xs)"
    by simp
  moreover have "representable (a + x)"
    using calculation by (cases xs) simp_all
  ultimately have "foldl number_add (Finite (a + x)) (map round_double xs)
                     = Finite (a + x + sum_list xs)"
    using Cons.IH [of "a + x"] Cons.prems by simp
  moreover have "number_add (Finite a) (round_double x) = Finite (a + x)"
    using \<open>representable (a + x)\<close> by (simp add: x representable_def)
  ultimately show ?case
    by (simp add: add.assoc)
qed

text \<open>
  Claim C5, as stated: the amounts are processed with an exact decimal or fixed-point type
  and the sum of a bucket is the exact decimal sum.  The code converts each amount with
  \<open>parseFloat\<close> and adds binary64 numbers.  On a host in UTC at 11:30 on 1 January 2024, the
  24-hour window is answered with a record of 0.1 and a record of 0.2, both of the hour
  from 10:00; the point of that hour (index 23) has \<open>quota_consumed\<close>
  \<open>1351079888211149 / 2 ^ 52\<close>, the number printed 0.30000000000000004, which is neither
  the exact sum \<open>3 / 10\<close> nor the number nearest to it.
\<close>

theorem exact_sum_counterexample:
  "answered utc_host (\<lambda>q. Inr drift_response) 1704108600000 initial_state 24 drift_response
   \<and> bucket_records utc_host
        (time (series utc_host (\<lambda>q. Inr drift_response) 1704108600000 initial_state ! 23))
        drift_response = drift_response
   \<and> map amount drift_response = [1 / 10, 2 / 10]
   \<and> quota_consumed (series utc_host (\<lambda>q. Inr drift_response) 1704108600000 initial_state ! 23)
       = Finite (1351079888211149 / 4503599627370496)
   \<and> quota_consumed (series utc_host (\<lambda>q. Inr drift_response) 1704108600000 initial_state ! 23)
       \<noteq> Finite (1 / 10 + 2 / 10)
   \<and> quota_consumed (series utc_host (\<lambda>q. Inr drift_response) 1704108600000 initial_state ! 23)
       \<noteq> round_double (1 / 10 + 2 / 10)"
  by code_simp

text \<open>
  Claim C5, as amended.  The amounts arrive as decimal strings and are processed as
  binary64 numbers: for a point \<open>p\<close> of the series of an answered run whose bucket holds
  records with decimal strings, \<open>quota_consumed p\<close> is the sum, formed in the order of
  arrival with a rounding at each addition, of the amounts each rounded to a number.  It
  equals the exact sum of the amounts when every amount of the bucket and every running
  sum of them is representable as a number.
\<close>

theorem bucket_sum_exactness:
  assumes "answered env api now st h rs"
    and "p \<in> set (series env api now st)"
    and "list_all (\<lambda>r. is_decimal (quota_consumed_str r)) (bucket_records env (time p) rs)"
  shows "quota_consumed p =
           number_sum (map (\<lambda>r. round_double (amount r)) (bucket_records env (time p) rs))
       \<and> (list_all representable (map amount (bucket_records env (time p) rs))
          \<and> list_all representable
               (running_sums 0 (map amount (bucket_records env (time p) rs)))
          \<longrightarrow> quota_consumed p
                = Finite (sum_list (map amount (bucket_records env (time p) rs))))"
proof -
  let ?b = "bucket_records env (time p) rs"
  from answered_series [OF assms(1)] obtain m
    where m: "forEach_record env rs Map.empty = Inr m"
      and s: "series env api now st = chartData env now h m" by blast
  from assms(2) s have pm: "p \<in> set (chartData env now h m)" by simp
  have q: "quota_consumed p = number_sum (map (\<lambda>r. round_double (amount r)) ?b)"
    by (simp only: point_quota [OF m pm] map_parseFloat_decimal [OF assms(3)])
  have "quota_consumed p = Finite (sum_list (map amount ?b))"
    if "list_all representable (map amount ?b)"
      and "list_all representable (running_sums 0 (map amount ?b))"
  proof -
    have "map (\<lambda>r. round_double (amount r)) ?b = map round_double (map amount ?b)"
      by simp
    then have "quota_consumed p = foldl number_add (Finite 0) (map round_double (map amount ?b))"
      by (simp only: q number_sum_def)
    also have "\<dots> = Finite (0 + sum_list (map amount ?b))"
      by (rule exact_running_sum [OF that])
    finally show ?thesis by simp
  qed
  with q show ?thesis by blast
qed

theorem bucket_sum_exactness_witness:
  "answered utc_host (\<lambda>q. Inr example_response) 1704108600000 initial_state 24 example_response
   \<and> bucket_records utc_host
        (time (series utc_host (\<lambda>q. Inr example_response) 1704108600000 initial_state ! 23))
        example_response = example_response
   \<and> map amount example_response = [5, 3 / 2]
   \<and> quota_consumed (series utc_host (\<lambda>q. Inr example_response) 1704108600000 initial_state ! 23)
       = Finite (13 / 2)"
proof -
  let ?s = "series utc_host (\<lambda>q. Inr example_response) 1704108600000 initial_state"
  let ?p = "?s ! 23"
  have len: "length ?s = 24"
    by code_simp
  then have mem: "?p \<in> set ?s"
    by simp
  have b: "bucket_records utc_host (time ?p) example_response = example_response"
    by code_simp
  have dec: "list_all (\<lambda>r. is_decimal (quota_consumed_str r))
               (bucket_records utc_host (time ?p) example_response)"
    unfolding b by code_simp
  have am: "map amount example_response = [5, 3 / 2]"
    by code_simp
  have r1: "list_all representable (map amount (bucket_records utc_host (time ?p) example_response))"
    unfolding b am by code_simp
  have r2: "list_all representable
              (running_sums 0 (map amount (bucket_records utc_host (time ?p) example_response)))"
    unfolding b am by code_simp
  from bucket_sum_exactness [OF answered_example mem dec] r1 r2
  have "quota_consumed ?p
          = Finite (sum_list (map amount (bucket_records utc_host (time ?p) example_response)))"
    by blast
  then have "quota_consumed ?p = Finite (13 / 2)"
    unfolding b am by simp
  with answered_example b am show ?thesis
    by simp
qed

subsection \<open>The request, and the states after a run\<close>

lemma requests_sent:
  assumes "parseInt (timeRange st) = Some h"
  shows "snd (loadData env api now st) =
           [\<lparr>limit = 1000, start_date = ISO (now - h * 3600000), end_date = ISO now\<rparr>]"
  using assms unfolding loadData_def try_block_def ms_hours
  by (simp add: Let_def split: sum.split)

lemma loadData_same_answer:
  assumes "parseInt (timeRange st) = Some h"
    and "api' \<lparr>limit = 1000, start_date = ISO (now - h * 3600000), end_date = ISO now\<rparr>
           = api \<lparr>limit = 1000, start_date = ISO (now - h * 3600000), end_date = ISO now\<rparr>"
  shows "loadData env api' now st = loadData env api now st"
  using assms unfolding loadData_def try_block_def ms_hours
  by (simp add: Let_def)

lemma chart_point_rebucketed:
  assumes "forEach_record env rs Map.empty = Inr m"
  shows "chart_point env now h m i =
           \<lparr>time = ISO (local_hour env (now - (h - i) * 3600000)),
            quota_consumed =
              foldl number_add (Finite 0)
                (map (\<lambda>r. parseFloat (quota_consumed_str r))
                   (filter (\<lambda>r. map_option (local_hour env) (Date_parse env (consumed_at r))
                                  = Some (local_hour env (now - (h - i) * 3600000))) rs)),
            count =
              length (filter (\<lambda>r. map_option (local_hour env) (Date_parse env (consumed_at r))
                                     = Some (local_hour env (now - (h - i) * 3600000))) rs)\<rparr>"
proof -
  let ?k = "ISO (local_hour env (now - (h - i) * 3600000))"
  have t: "time (chart_point env now h m i) = ?k"
    by (rule time_chart_point)
  have q: "quota_consumed (chart_point env now h m i) =
             number_sum (map (\<lambda>r. parseFloat (quota_consumed_str r)) (bucket_records env ?k rs))"
    by (simp only: quota_chart_point t forEach_record_quota [OF assms])
  have c: "count (chart_point env now h m i) = length (bucket_records env ?k rs)"
    by (simp only: count_chart_point t forEach_record_count [OF assms])
  have "chart_point env now h m i =
          \<lparr>time = time (chart_point env now h m i),
           quota_consumed = quota_consumed (chart_point env now h m i),
           count = count (chart_point env now h m i)\<rparr>"
    by simp
  then show ?thesis
    by (simp only: t q c number_sum_def bucket_records_def iso_string.sel)
qed

lemma chartData_rebucketed:
  assumes "forEach_record env rs Map.empty = Inr m"
  shows "chartData env now h m =
           map (\<lambda>i. \<lparr>time = ISO (local_hour env (now - (h - int i) * 3600000)),
                     quota_consumed =
                       foldl number_add (Finite 0)
                         (map (\<lambda>r. parseFloat (quota_consumed_str r))
                            (filter (\<lambda>r. map_option (local_hour env)
                                            (Date_parse env (consumed_at r))
                                           = Some (local_hour env (now - (h - int i) * 3600000)))
                               rs)),
                     count =
                       length (filter (\<lambda>r. map_option (local_hour env)
                                              (Date_parse env (consumed_at r))
                                             = Some (local_hour env (now - (h - int i) * 3600000)))
                                 rs)\<rparr>)
             [0..<nat h]"
  unfolding chartData_def
  by (rule map_cong [OF refl]) (rule chart_point_rebucketed [OF assms])

lemma forEach_record_throws:
  "\<exists>r \<in> set rs. Date_parse env (consumed_at r) = None \<Longrightarrow>
     forEach_record env rs m = Inl (ErrorObject (invalid_time_message env))"
proof (induction rs arbitrary: m)
  case Nil
  then show ?case by simp
next
  case (Cons r rs)
  show ?case
  proof (cases "Date_parse env (consumed_at r)")
    case None
    then show ?thesis by (simp add: hourKey_None)
  next
    case (Some t)
    with Cons.prems have "\<exists>r \<in> set rs. Date_parse env (consumed_at r) = None"
      by auto
    from Cons.IH [OF this] show ?thesis
      by (simp add: Some hourKey_Some)
  qed
qed

lemma loadData_throws:
  assumes "parseInt (timeRange st) = Some h"
    and "api \<lparr>limit = 1000, start_date = ISO (now - h * 3600000), end_date = ISO now\<rparr> = Inr rs"
    and "\<exists>r \<in> set rs. Date_parse env (consumed_at r) = None"
  shows "loadData env api now st =
           (st\<lparr>isLoading := False, error := Some (invalid_time_message env)\<rparr>,
            [\<lparr>limit = 1000, start_date = ISO (now - h * 3600000), end_date = ISO now\<rparr>])"
  using assms(1,2) forEach_record_throws [OF assms(3), of Map.empty]
  unfolding loadData_def try_block_def ms_hours
  by (simp add: Let_def catch_message_def)

text \<open>
  Claim C6.  When the selected range is one of the three the selector offers, 24, 48 or
  168 hours, a run of \<open>loadData\<close> sends exactly one request, with \<open>limit\<close> 1000, \<open>start_date\<close>
  the string of \<open>now - h * 3600000\<close> and \<open>end_date\<close> the string of \<open>now\<close>.  When the request
  is answered with records whose \<open>consumed_at\<close> the date parser of the host reads, the
  series stored is computed from these records and the clock alone: for each \<open>i\<close> below
  \<open>h\<close>, in this order, one point whose \<open>time\<close> is the local hour of
  \<open>now - (h - i) * 3600000\<close>, whose \<open>quota_consumed\<close> is the sum, from 0 and in the order of
  the answer, of \<open>parseFloat\<close> of the \<open>quota_consumed\<close> of the records whose parsed
  \<open>consumed_at\<close> has that local hour, and whose \<open>count\<close> is the number of these records.
  When some \<open>consumed_at\<close> cannot be read, no series is computed: the one of the state
  before stays, and the error is the message of the exception.  Two services that give
  the same answer to the request lead to the same state.
\<close>

theorem one_query_rebucketed_locally:
  assumes "(timeRange st, h) \<in> {(''24'', 24), (''48'', 48), (''168'', 168)}"
  shows "snd (loadData env api now st) =
           [\<lparr>limit = 1000, start_date = ISO (now - h * 3600000), end_date = ISO now\<rparr>]
       \<and> (\<forall>rs. api \<lparr>limit = 1000, start_date = ISO (now - h * 3600000), end_date = ISO now\<rparr>
                  = Inr rs
              \<and> (\<forall>r \<in> set rs. Date_parse env (consumed_at r) \<noteq> None) \<longrightarrow>
              series env api now st =
                map (\<lambda>i. \<lparr>time = ISO (local_hour env (now - (h - int i) * 3600000)),
                          quota_consumed =
                            foldl number_add (Finite 0)
                              (map (\<lambda>r. parseFloat (quota_consumed_str r))
                                 (filter (\<lambda>r. map_option (local_hour env)
                                                 (Date_parse env (consumed_at r))
                                                = Some (local_hour env
                                                          (now - (h - int i) * 3600000)))
                                    rs)),
                          count =
                            length (filter (\<lambda>r. map_option (local_hour env)
                                                   (Date_parse env (consumed_at r))
                                                  = Some (local_hour env
                                                            (now - (h - int i) * 3600000)))
                                      rs)\<rparr>)
                  [0..<nat h])
       \<and> (\<forall>rs. api \<lparr>limit = 1000, start_date = ISO (now - h * 3600000), end_date = ISO now\<rparr>
                  = Inr rs
              \<and> (\<exists>r \<in> set rs. Date_parse env (consumed_at r) = None) \<longrightarrow>
              series env api now st = data st
            \<and> error (fst (loadData env api now st)) = Some (invalid_time_message env))
       \<and> (\<forall>api'. api' \<lparr>limit = 1000, start_date = ISO (now - h * 3600000), end_date = ISO now\<rparr>
                    = api \<lparr>limit = 1000, start_date = ISO (now - h * 3600000), end_date = ISO now\<rparr>
              \<longrightarrow> loadData env api' now st = loadData env api now st)"
proof -
  let ?q = "\<lparr>limit = 1000, start_date = ISO (now - h * 3600000), end_date = ISO now\<rparr>"
  from assms have h: "parseInt (timeRange st) = Some h"
    by (auto simp: parseInt_24 parseInt_48 parseInt_168)
  have one: "snd (loadData env api now st) = [?q]"
    by (rule requests_sent [OF h])
  have good: "series env api now st =
                map (\<lambda>i. \<lparr>time = ISO (local_hour env (now - (h - int i) * 3600000)),
                          quota_consumed =
                            foldl number_add (Finite 0)
                              (map (\<lambda>r. parseFloat (quota_consumed_str r))
                                 (filter (\<lambda>r. map_option (local_hour env)
                                                 (Date_parse env (consumed_at r))
                                                = Some (local_hour env
                                                          (now - (h - int i) * 3600000)))
                                    rs)),
                          count =
                            length (filter (\<lambda>r. map_option (local_hour env)
                                                   (Date_parse env (consumed_at r))
                                                  = Some (local_hour env
                                                            (now - (h - int i) * 3600000)))
                                      rs)\<rparr>)
                  [0..<nat h]"
    if a: "api ?q = Inr rs" and p: "\<forall>r \<in> set rs. Date_parse env (consumed_at r) \<noteq> None" for rs
  proof -
    from loadData_data [where api = api and now = now and h = h and env = env and st = st
                          and rs = rs, OF h a p]
    obtain m where m: "forEach_record env rs Map.empty = Inr m"
      and d: "data (fst (loadData env api now st)) = chartData env now h m" by blast
    from d show ?thesis
      by (simp only: series_def chartData_rebucketed [OF m])
  qed
  have bad: "series env api now st = data st
            \<and> error (fst (loadData env api now st)) = Some (invalid_time_message env)"
    if a: "api ?q = Inr rs" and p: "\<exists>r \<in> set rs. Date_parse env (consumed_at r) = None" for rs
    using loadData_throws [where api = api and now = now and h = h and env = env and st = st
                             and rs = rs, OF h a p]
    by (simp add: series_def)
  have same: "loadData env api' now st = loadData env api now st"
    if "api' ?q = api ?q" for api'
    using loadData_same_answer [where api = api and api' = api' and now = now and h = h
                                  and env = env and st = st, OF h that] .
  from one good bad same show ?thesis by blast
qed

theorem one_query_rebucketed_locally_witness:
  "(timeRange initial_state, 24) \<in> {(''24'', 24), (''48'', 48), (''168'', 168 :: int)}
   \<and> snd (loadData utc_host (\<lambda>q. Inr example_response) 1704108600000 initial_state) =
       [\<lparr>limit = 1000, start_date = ISO 1704022200000, end_date = ISO 1704108600000\<rparr>]
   \<and> list_all (\<lambda>r. Date_parse utc_host (consumed_at r) \<noteq> None) example_response
   \<and> series utc_host (\<lambda>q. Inr example_response) 1704108600000 initial_state =
       map (\<lambda>i. \<lparr>time = ISO (1704022200000 + int i * 3600000 - 1800000),
                 quota_consumed = (if i = 23 then Finite (13 / 2) else Finite 0),
                 count = (if i = 23 then 2 else 0)\<rparr>)
         [0..<24]"
proof -
  let ?api = "\<lambda>q :: consumption_query. (Inr example_response :: thrown + QuotaConsumption list)"
  have sel: "(timeRange initial_state, 24) \<in> {(''24'', 24), (''48'', 48), (''168'', 168 :: int)}"
    by (simp add: initial_state_def)
  note t = one_query_rebucketed_locally
             [where st = initial_state and h = 24 and env = utc_host and api = "?api"
                and now = 1704108600000, OF sel]
  have a: "?api \<lparr>limit = 1000, start_date = ISO (1704108600000 - 24 * 3600000),
                    end_date = ISO 1704108600000\<rparr> = Inr example_response"
    by simp
  have p: "list_all (\<lambda>r. Date_parse utc_host (consumed_at r) \<noteq> None) example_response"
    using example_response_parses by (simp only: list_all_iff)
  from t a example_response_parses
  have "series utc_host ?api 1704108600000 initial_state =
          map (\<lambda>i. \<lparr>time = ISO (local_hour utc_host (1704108600000 - (24 - int i) * 3600000)),
                    quota_consumed =
                      foldl number_add (Finite 0)
                        (map (\<lambda>r. parseFloat (quota_consumed_str r))
                           (filter (\<lambda>r. map_option (local_hour utc_host)
                                           (Date_parse utc_host (consumed_at r))
                                          = Some (local_hour utc_host
                                                    (1704108600000 - (24 - int i) * 3600000)))
                              example_response)),
                    count =
                      length (filter (\<lambda>r. map_option (local_hour utc_host)
                                             (Date_parse utc_host (consumed_at r))
                                            = Some (local_hour utc_host
                                                      (1704108600000 - (24 - int i) * 3600000)))
                                example_response)\<rparr>)
            [0..<nat 24]"
    by blast
  also have "\<dots> = map (\<lambda>i. \<lparr>time = ISO (1704022200000 + int i * 3600000 - 1800000),
                 quota_consumed = (if i = 23 then Finite (13 / 2) else Finite 0),
                 count = (if i = 23 then 2 else 0)\<rparr>)
         [0..<24]"
    by code_simp
  finally have s: "series utc_host ?api 1704108600000 initial_state =
          map (\<lambda>i. \<lparr>time = ISO (1704022200000 + int i * 3600000 - 1800000),
                 quota_consumed = (if i = 23 then Finite (13 / 2) else Finite 0),
                 count = (if i = 23 then 2 else 0)\<rparr>)
         [0..<24]" .
  from t have "snd (loadData utc_host ?api 1704108600000 initial_state) =
          [\<lparr>limit = 1000, start_date = ISO (1704108600000 - 24 * 3600000),
              end_date = ISO 1704108600000\<rparr>]"
    by blast
  then have r: "snd (loadData utc_host ?api 1704108600000 initial_state) =
          [\<lparr>limit = 1000, start_date = ISO 1704022200000, end_date = ISO 1704108600000\<rparr>]"
    by simp
  from sel r p s show ?thesis by blast
qed

lemma isLoading_cleared: "isLoading (fst (loadData env api now st)) = False"
  by (simp add: loadData_def Let_def split: prod.split)

text \<open>
  Claim C10, as stated: when the request is rejected, the trend data remains the empty
  list.  It does not when the component already holds a series.  On the host in UTC the
  component is mounted, loads the 24-hour window at 11:30 on 1 January 2024 and stores 24
  points; the range is then changed to 48 hours and the request of the second run, an
  hour later, is rejected with the error \<open>Failed to fetch\<close>.  The state afterwards holds
  that message and the 24 points of the first run, not the empty list.
\<close>

theorem stale_series_counterexample:
  "timeRange initial_state = ''24''
   \<and> length (data (fst (loadData utc_host (\<lambda>q. Inr example_response) 1704108600000
                          initial_state))) = 24
   \<and> error (fst (loadData utc_host (\<lambda>q. Inl (ErrorObject ''Failed to fetch'')) 1704112200000
                   ((fst (loadData utc_host (\<lambda>q. Inr example_response) 1704108600000
                            initial_state))
                    \<lparr>timeRange := ''48''\<rparr>)))
       = Some ''Failed to fetch''
   \<and> length (data (fst (loadData utc_host (\<lambda>q. Inl (ErrorObject ''Failed to fetch''))
                          1704112200000
                          ((fst (loadData utc_host (\<lambda>q. Inr example_response) 1704108600000
                                   initial_state))
                           \<lparr>timeRange := ''48''\<rparr>)))) = 24
   \<and> data (fst (loadData utc_host (\<lambda>q. Inl (ErrorObject ''Failed to fetch'')) 1704112200000
                  ((fst (loadData utc_host (\<lambda>q. Inr example_response) 1704108600000
                           initial_state))
                   \<lparr>timeRange := ''48''\<rparr>))) \<noteq> []"
  by code_simp

text \<open>
  Claim C10, as amended.  When the request of a run is rejected with a thrown value \<open>e\<close>,
  the state afterwards holds as error the message of \<open>e\<close> when \<open>e\<close> is an \<open>Error\<close>, and the
  fixed failure text otherwise, and the trend data is left as it was before the run: the
  empty list after mounting, the series of the last successful run after that.  After
  every run, rejected or not, the loading flag is off.
\<close>

theorem rejected_fetch_sets_error:
  assumes "parseInt (timeRange st) = Some h"
    and "api \<lparr>limit = 1000, start_date = ISO (now - h * 3600000), end_date = ISO now\<rparr> = Inl e"
  shows "error (fst (loadData env api now st)) =
           Some (case e of ErrorObject message \<Rightarrow> message | NonError \<Rightarrow> load_failed_text)
       \<and> data (fst (loadData env api now st)) = data st
       \<and> isLoading (fst (loadData env api now st)) = False
       \<and> (\<forall>api' now' st'. isLoading (fst (loadData env api' now' st')) = False)"
  using loadData_rejected [where api = api and now = now and h = h and env = env and st = st,
          OF assms]
  by (simp add: catch_message_def isLoading_cleared)

theorem rejected_fetch_sets_error_witness:
  "parseInt (timeRange initial_state) = Some 24
   \<and> error (fst (loadData utc_host (\<lambda>q. Inl (ErrorObject ''Failed to fetch'')) 1704108600000
                 initial_state)) = Some ''Failed to fetch''
   \<and> data (fst (loadData utc_host (\<lambda>q. Inl (ErrorObject ''Failed to fetch'')) 1704108600000
                 initial_state)) = []
   \<and> isLoading (fst (loadData utc_host (\<lambda>q. Inl (ErrorObject ''Failed to fetch'')) 1704108600000
                 initial_state)) = False
   \<and> error (fst (loadData utc_host (\<lambda>q. Inl NonError) 1704108600000 initial_state))
       = Some load_failed_text
   \<and> parseInt (timeRange ((fst (loadData utc_host (\<lambda>q. Inr example_response) 1704108600000
                                  initial_state))\<lparr>timeRange := ''48''\<rparr>)) = Some 48
   \<and> data (fst (loadData utc_host (\<lambda>q. Inl NonError) 1704112200000
                  ((fst (loadData utc_host (\<lambda>q. Inr example_response) 1704108600000
                           initial_state))\<lparr>timeRange := ''48''\<rparr>)))
       = data (fst (loadData utc_host (\<lambda>q. Inr example_response) 1704108600000 initial_state))
   \<and> isLoading (fst (loadData utc_host (\<lambda>q. Inl NonError) 1704112200000
                  ((fst (loadData utc_host (\<lambda>q. Inr example_response) 1704108600000
                           initial_state))\<lparr>timeRange := ''48''\<rparr>))) = False"
proof -
  let ?st = "(fst (loadData utc_host (\<lambda>q. Inr example_response) 1704108600000 initial_state))
               \<lparr>timeRange := ''48''\<rparr>"
  have h: "parseInt (timeRange initial_state) = Some 24"
    by (simp add: initial_state_def parseInt_24)
  have h': "parseInt (timeRange ?st) = Some 48"
    by (simp add: parseInt_48)
  have d: "data initial_state = []"
    by (simp add: initial_state_def)
  have d': "data ?st
              = data (fst (loadData utc_host (\<lambda>q. Inr example_response) 1704108600000
                             initial_state))"
    by simp
  from rejected_fetch_sets_error
         [where api = "\<lambda>q. Inl (ErrorObject ''Failed to fetch'')" and now = 1704108600000
            and h = 24 and env = utc_host and st = initial_state and e = "ErrorObject ''Failed to fetch''",
          OF h]
       rejected_fetch_sets_error
         [where api = "\<lambda>q. Inl NonError" and now = 1704108600000
            and h = 24 and env = utc_host and st = initial_state and e = NonError, OF h]
       rejected_fetch_sets_error
         [where api = "\<lambda>q. Inl NonError" and now = 1704112200000
            and h = 48 and env = utc_host and st = "?st" and e = NonError, OF h']
       h h' d d'
  show ?thesis by simp
qed

section \<open>Properties of the admission check\<close>

lemma CheckAndReserve_granted:
  assumes "remaining_quota l pool = Some q" and "a \<le> q"
  shows "succeeded (fst (CheckAndReserve pool a l))"
    and "remaining_quota (snd (CheckAndReserve pool a l)) pool = Some (q - a)"
  using assms by (simp_all add: CheckAndReserve_def Let_def succeeded_def)

lemma CheckAndReserve_denied:
  assumes "remaining_quota l pool = Some q" and "q < a"
  shows "CheckAndReserve pool a l = (Inl InsufficientQuota, l)"
  using assms by (simp add: CheckAndReserve_def)

text \<open>
  Claim C7.  Let the pool hold the remaining quota \<open>q\<close>, enough for one of the amounts
  \<open>a\<close> and \<open>b\<close> but not for both together.  In either order of the two atomic steps, one
  of the two calls returns a reservation and the other fails with \<open>InsufficientQuota\<close>; the
  two never both succeed.
\<close>

theorem concurrent_reserve_exactly_one:
  assumes "remaining_quota l pool = Some q" and "a \<le> q \<or> b \<le> q" and "q < a + b"
  shows "case concurrent_reserve s pool a b l of
           (ra, rb, l') \<Rightarrow>
             (succeeded ra \<and> rb = Inl InsufficientQuota)
           \<or> (ra = Inl InsufficientQuota \<and> succeeded rb)"
proof -
  have first: "CheckAndReserve pool y (snd (CheckAndReserve pool x l))
                 = (Inl InsufficientQuota, snd (CheckAndReserve pool x l))"
    if "x \<le> q" and "q < x + y" for x y
  proof (rule CheckAndReserve_denied)
    show "remaining_quota (snd (CheckAndReserve pool x l)) pool = Some (q - x)"
      by (rule CheckAndReserve_granted(2) [OF assms(1) that(1)])
    show "q - x < y" using that(2) by simp
  qed
  have later: "succeeded (fst (CheckAndReserve pool y (snd (CheckAndReserve pool x l))))"
    if "q < x" and "y \<le> q" for x y
    using CheckAndReserve_denied [OF assms(1) that(1)]
      CheckAndReserve_granted(1) [OF assms(1) that(2)] by simp
  show ?thesis
  proof (cases s)
    case FirstCallerFirst
    show ?thesis
    proof (cases "a \<le> q")
      case True
      from first [OF True assms(3)] CheckAndReserve_granted(1) [OF assms(1) True]
      show ?thesis
        by (simp add: concurrent_reserve_def FirstCallerFirst Let_def case_prod_beta)
    next
      case False
      then have qa: "q < a" and bq: "b \<le> q" using assms(2) by simp_all
      from later [OF qa bq] CheckAndReserve_denied [OF assms(1) qa]
      show ?thesis
        by (simp add: concurrent_reserve_def FirstCallerFirst Let_def case_prod_beta)
    qed
  next
    case SecondCallerFirst
    show ?thesis
    proof (cases "b \<le> q")
      case True
      have "q < b + a" using assms(3) by simp
      from first [OF True this] CheckAndReserve_granted(1) [OF assms(1) True]
      show ?thesis
        by (simp add: concurrent_reserve_def SecondCallerFirst Let_def case_prod_beta)
    next
      case False
      then have qb: "q < b" and aq: "a \<le> q" using assms(2) by simp_all
      from later [OF qb aq] CheckAndReserve_denied [OF assms(1) qb]
      show ?thesis
        by (simp add: concurrent_reserve_def SecondCallerFirst Let_def case_prod_beta)
    qed
  qed
qed

theorem concurrent_reserve_exactly_one_witness:
  "fst (concurrent_reserve FirstCallerFirst ''shared'' 3 4
          \<lparr>remaining_quota = [''shared'' \<mapsto> 5], reservations = []\<rparr>)
     = Inr \<lparr>reservation_id = 0, pool_id = ''shared'', reserved_amount = 3, state = Pending\<rparr>
   \<and> fst (snd (concurrent_reserve FirstCallerFirst ''shared'' 3 4
          \<lparr>remaining_quota = [''shared'' \<mapsto> 5], reservations = []\<rparr>))
     = Inl InsufficientQuota
   \<and> fst (concurrent_reserve SecondCallerFirst ''shared'' 3 4
          \<lparr>remaining_quota = [''shared'' \<mapsto> 5], reservations = []\<rparr>)
     = Inl InsufficientQuota
   \<and> succeeded (fst (snd (concurrent_reserve SecondCallerFirst ''shared'' 3 4
          \<lparr>remaining_quota = [''shared'' \<mapsto> 5], reservations = []\<rparr>)))"
proof -
  let ?l = "\<lparr>remaining_quota = [''shared'' \<mapsto> (5::rat)], reservations = []\<rparr>"
  have q: "remaining_quota ?l ''shared'' = Some 5" by simp
  have one: "(3::rat) \<le> 5 \<or> (4::rat) \<le> 5" by simp
  have both: "(5::rat) < 3 + 4" by simp
  note t = concurrent_reserve_exactly_one [OF q one both]
  have a: "fst (concurrent_reserve FirstCallerFirst ''shared'' 3 4 ?l)
             = Inr \<lparr>reservation_id = 0, pool_id = ''shared'', reserved_amount = 3, state = Pending\<rparr>"
    by (simp add: concurrent_reserve_def CheckAndReserve_def Let_def)
  have b: "fst (concurrent_reserve SecondCallerFirst ''shared'' 3 4 ?l) = Inl InsufficientQuota"
    by (simp add: concurrent_reserve_def CheckAndReserve_def Let_def)
  from t [of FirstCallerFirst] a
  have c: "fst (snd (concurrent_reserve FirstCallerFirst ''shared'' 3 4 ?l)) = Inl InsufficientQuota"
    by (auto simp: succeeded_def case_prod_beta)
  from t [of SecondCallerFirst] b
  have d: "succeeded (fst (snd (concurrent_reserve SecondCallerFirst ''shared'' 3 4 ?l)))"
    by (auto simp: succeeded_def case_prod_beta)
  from a b c d show ?thesis by simp
qed

end
